theory Spec2Isabelle
  imports Main "HOL-Library.Sublist" "HOL-Library.Multiset"
begin

section \<open>Python values and the operations the two scripts use\<close>

text \<open>
  The scripts read one JSON document with \<open>json.load\<close> and then work on the resulting
  Python objects by duck typing. A loaded document is a value of \<open>pyval\<close>: \<open>None\<close>, a
  bool, an int, a str, a list or a dict with str keys (an association list in insertion
  order; a loaded object has no repeated key). A \<open>char\<close> stands for one code point below
  256; JSON numbers with a fraction are outside the model.
\<close>

datatype pyval =
    PNone
  | PBool bool
  | PInt int
  | PStr string
  | PList "pyval list"
  | PDict "(string \<times> pyval) list"

datatype error = AttributeError | TypeError | KeyError | IndexError

text \<open>Sequencing of steps that may raise: the first exception ends the run.\<close>

definition bnd :: "error + 'a \<Rightarrow> ('a \<Rightarrow> error + 'b) \<Rightarrow> error + 'b" where
  "bnd m f = (case m of Inl e \<Rightarrow> Inl e | Inr x \<Rightarrow> f x)"

fun for_each :: "('s \<Rightarrow> 'a \<Rightarrow> error + 's) \<Rightarrow> 's \<Rightarrow> 'a list \<Rightarrow> error + 's" where
  "for_each step s [] = Inr s"
| "for_each step s (x # xs) =
     (case step s x of Inl e \<Rightarrow> Inl e | Inr s' \<Rightarrow> for_each step s' xs)"

text \<open>\<open>bool(v)\<close>, as \<open>if v\<close>, \<open>not v\<close> and \<open>a or b\<close> use it.\<close>

fun py_truthy :: "pyval \<Rightarrow> bool" where
  "py_truthy PNone = False"
| "py_truthy (PBool b) = b"
| "py_truthy (PInt i) = (i \<noteq> 0)"
| "py_truthy (PStr s) = (s \<noteq> [])"
| "py_truthy (PList xs) = (xs \<noteq> [])"
| "py_truthy (PDict kvs) = (kvs \<noteq> [])"

text \<open>\<open>a or b\<close>: the first operand when it is truthy, else the second.\<close>

definition py_or :: "pyval \<Rightarrow> pyval \<Rightarrow> pyval" where
  "py_or a b = (if py_truthy a then a else b)"

text \<open>\<open>d.get(k, default)\<close> on a dict, given as its item list.\<close>

definition dict_get :: "(string \<times> pyval) list \<Rightarrow> string \<Rightarrow> pyval \<Rightarrow> pyval" where
  "dict_get kvs k dflt = (case map_of kvs k of Some v \<Rightarrow> v | None \<Rightarrow> dflt)"

text \<open>\<open>v.get(k, default)\<close> on any value: only a dict has the method.\<close>

fun py_get :: "pyval \<Rightarrow> string \<Rightarrow> pyval \<Rightarrow> error + pyval" where
  "py_get (PDict kvs) k dflt = Inr (dict_get kvs k dflt)"
| "py_get _ k dflt = Inl AttributeError"

text \<open>\<open>v[k]\<close> with a str \<open>k\<close>: a str or a list wants an integer index, the rest is not
  subscriptable.\<close>

fun py_subscript :: "pyval \<Rightarrow> string \<Rightarrow> error + pyval" where
  "py_subscript (PDict kvs) k = (case map_of kvs k of Some v \<Rightarrow> Inr v | None \<Rightarrow> Inl KeyError)"
| "py_subscript _ k = Inl TypeError"

text \<open>Substring test on strings.\<close>

fun str_in :: "string \<Rightarrow> string \<Rightarrow> bool" where
  "str_in sub [] = (sub = [])"
| "str_in sub (c # cs) = (prefix sub (c # cs) \<or> str_in sub cs)"

text \<open>\<open>lit in v\<close> for a str literal: substring of a str, element of a list, key of a dict;
  the other types are not iterable.\<close>

fun py_contains :: "string \<Rightarrow> pyval \<Rightarrow> error + bool" where
  "py_contains lit (PStr s) = Inr (str_in lit s)"
| "py_contains lit (PList xs) = Inr (PStr lit \<in> set xs)"
| "py_contains lit (PDict kvs) = Inr (lit \<in> fst ` set kvs)"
| "py_contains lit _ = Inl TypeError"

text \<open>\<open>s.split(c)\<close> for a one-character separator: never an empty list.\<close>

fun split_on :: "char \<Rightarrow> string \<Rightarrow> string list" where
  "split_on c [] = [[]]"
| "split_on c (x # xs) =
     (if x = c then [] # split_on c xs
      else (case split_on c xs of [] \<Rightarrow> [[x]] | seg # segs \<Rightarrow> (x # seg) # segs))"

fun py_split :: "pyval \<Rightarrow> char \<Rightarrow> error + string list" where
  "py_split (PStr s) c = Inr (split_on c s)"
| "py_split _ c = Inl AttributeError"

text \<open>\<open>xs[-1]\<close>.\<close>

definition index_last :: "'a list \<Rightarrow> error + 'a" where
  "index_last xs = (if xs = [] then Inl IndexError else Inr (last xs))"

text \<open>\<open>s.lower()\<close> and \<open>s.replace(c, new)\<close> for a one-character \<open>c\<close>. Below code point 256
  the upper-case letters are A to Z and the Latin-1 letters 192 to 222 without 215; each
  has its lower-case form 32 places up.\<close>

definition lower_char :: "char \<Rightarrow> char" where
  "lower_char c =
     (let n = (of_char c :: nat)
      in if (65 \<le> n \<and> n \<le> 90) \<or> (192 \<le> n \<and> n \<le> 222 \<and> n \<noteq> 215)
         then char_of (n + 32) else c)"

definition lower :: "string \<Rightarrow> string" where
  "lower s = map lower_char s"

definition replace :: "char \<Rightarrow> string \<Rightarrow> string \<Rightarrow> string" where
  "replace c new s = concat (map (\<lambda>x. if x = c then new else [x]) s)"

fun py_lower :: "pyval \<Rightarrow> error + string" where
  "py_lower (PStr s) = Inr (lower s)"
| "py_lower _ = Inl AttributeError"

subsection \<open>Hashable values: dict keys and set elements\<close>

text \<open>
  A dict key or a set element must be hashable: \<open>None\<close>, a bool, an int or a str; hashing
  a list or a dict raises \<open>TypeError\<close>. \<open>True\<close> and \<open>1\<close> (and \<open>False\<close> and \<open>0\<close>) are equal
  and hash alike, so they are one key; \<open>key_norm\<close> picks the representative.
\<close>

datatype hashable = HNone | HBool bool | HInt int | HStr string

fun py_hash :: "pyval \<Rightarrow> error + hashable" where
  "py_hash PNone = Inr HNone"
| "py_hash (PBool b) = Inr (HBool b)"
| "py_hash (PInt i) = Inr (HInt i)"
| "py_hash (PStr s) = Inr (HStr s)"
| "py_hash (PList xs) = Inl TypeError"
| "py_hash (PDict kvs) = Inl TypeError"

fun unhash :: "hashable \<Rightarrow> pyval" where
  "unhash HNone = PNone"
| "unhash (HBool b) = PBool b"
| "unhash (HInt i) = PInt i"
| "unhash (HStr s) = PStr s"

fun key_norm :: "hashable \<Rightarrow> hashable" where
  "key_norm (HBool b) = HInt (if b then 1 else 0)"
| "key_norm k = k"

text \<open>A dict keeps its items in insertion order; \<open>d[k] = v\<close> on a key already there replaces
  the value in place and keeps the key object first stored.\<close>

type_synonym 'v pydict = "(hashable \<times> 'v) list"

fun dict_lookup :: "'v pydict \<Rightarrow> hashable \<Rightarrow> 'v option" where
  "dict_lookup [] k = None"
| "dict_lookup ((k', v) # d) k = (if key_norm k' = key_norm k then Some v else dict_lookup d k)"

definition dict_mem :: "hashable \<Rightarrow> 'v pydict \<Rightarrow> bool" where
  "dict_mem k d = (dict_lookup d k \<noteq> None)"

fun dict_set :: "'v pydict \<Rightarrow> hashable \<Rightarrow> 'v \<Rightarrow> 'v pydict" where
  "dict_set [] k v = [(k, v)]"
| "dict_set ((k', v') # d) k v =
     (if key_norm k' = key_norm k then (k', v) # d else (k', v') # dict_set d k v)"

text \<open>\<open>g[:8]\<close> on a key: a str is sliced, the other hashable values are not subscriptable.\<close>

fun py_take8 :: "hashable \<Rightarrow> error + string" where
  "py_take8 (HStr s) = Inr (take 8 s)"
| "py_take8 _ = Inl TypeError"

text \<open>\<open>lit in u\<close> on a hashable value: substring of a str, the rest is not iterable.\<close>

fun key_contains :: "string \<Rightarrow> hashable \<Rightarrow> error + bool" where
  "key_contains lit (HStr s) = Inr (str_in lit s)"
| "key_contains lit _ = Inl TypeError"

subsection \<open>Formatting: what an f-string and \<open>print\<close> write\<close>

definition digit_char :: "nat \<Rightarrow> char" where
  "digit_char n = char_of (48 + n)"

function show_nat :: "nat \<Rightarrow> string" where
  "show_nat n = (if n < 10 then [digit_char n] else show_nat (n div 10) @ [digit_char (n mod 10)])"
  by pat_completeness auto
termination
  by (relation "measure id") auto

definition show_int :: "int \<Rightarrow> string" where
  "show_int i = (if i < 0 then CHR ''-'' # show_nat (nat (- i)) else show_nat (nat i))"

definition hex_char :: "nat \<Rightarrow> char" where
  "hex_char n = (if n < 10 then char_of (48 + n) else char_of (87 + n))"

text \<open>\<open>repr\<close> of a str: in single quotes, or in double quotes when it holds a single quote
  and no double quote; the backslash, the quote in use and the characters that are not
  printable are escaped.\<close>

definition repr_char :: "char \<Rightarrow> char \<Rightarrow> string" where
  "repr_char q c =
     (let n = (of_char c :: nat)
      in if n = 92 then [c, c]
         else if c = q then [CHR 0x5C, c]
         else if n = 9 then [CHR 0x5C, CHR ''t'']
         else if n = 10 then [CHR 0x5C, CHR ''n'']
         else if n = 13 then [CHR 0x5C, CHR ''r'']
         else if n < 32 \<or> (127 \<le> n \<and> n \<le> 160) \<or> n = 173
              then [CHR 0x5C, CHR ''x'', hex_char (n div 16), hex_char (n mod 16)]
         else [c])"

definition repr_str :: "string \<Rightarrow> string" where
  "repr_str s =
     (let q = (if CHR 0x27 \<in> set s \<and> CHR 0x22 \<notin> set s then CHR 0x22 else CHR 0x27)
      in q # concat (map (repr_char q) s) @ [q])"

fun join :: "string \<Rightarrow> string list \<Rightarrow> string" where
  "join sep [] = []"
| "join sep [x] = x"
| "join sep (x # y # ys) = x @ sep @ join sep (y # ys)"

fun py_repr :: "pyval \<Rightarrow> string" where
  "py_repr PNone = ''None''"
| "py_repr (PBool b) = (if b then ''True'' else ''False'')"
| "py_repr (PInt i) = show_int i"
| "py_repr (PStr s) = repr_str s"
| "py_repr (PList xs) = ''['' @ join '', '' (map py_repr xs) @ '']''"
| "py_repr (PDict kvs) =
     ''{'' @ join '', '' (map (\<lambda>kv. repr_str (fst kv) @ '': '' @ py_repr (snd kv)) kvs) @ ''}''"

text \<open>\<open>str(v)\<close>, which \<open>f"{v}"\<close> inserts: a str as it is, the rest as \<open>repr\<close>.\<close>

fun py_str :: "pyval \<Rightarrow> string" where
  "py_str (PStr s) = s"
| "py_str v = py_repr v"

subsection \<open>Comparison and \<open>sorted\<close>\<close>

text \<open>
  \<open>==\<close> on loaded values: a bool equals the int of its value, lists are equal item by
  item, dicts are equal when they have the same keys with equal values.
\<close>

fun num_val :: "pyval \<Rightarrow> int option" where
  "num_val (PBool b) = Some (if b then 1 else 0)"
| "num_val (PInt i) = Some i"
| "num_val _ = None"

fun py_eq :: "pyval \<Rightarrow> pyval \<Rightarrow> bool" where
  "py_eq PNone PNone = True"
| "py_eq (PStr a) (PStr b) = (a = b)"
| "py_eq (PList xs) (PList ys) = list_all2 py_eq xs ys"
| "py_eq (PDict a) (PDict b) =
     (fst ` set a = fst ` set b \<and>
      (\<forall>kv \<in> set a. case map_of b (fst kv) of Some w \<Rightarrow> py_eq (snd kv) w | None \<Rightarrow> False))"
| "py_eq a b = (case (num_val a, num_val b) of (Some i, Some j) \<Rightarrow> i = j | _ \<Rightarrow> False)"

text \<open>\<open><\<close> on strings: by code point, a proper prefix first.\<close>

fun str_lt :: "string \<Rightarrow> string \<Rightarrow> bool" where
  "str_lt [] [] = False"
| "str_lt [] (y # ys) = True"
| "str_lt (x # xs) [] = False"
| "str_lt (x # xs) (y # ys) =
     ((of_char x :: nat) < of_char y \<or> (x = y \<and> str_lt xs ys))"

text \<open>\<open>a < b\<close>: two strs, two numbers (bools count as ints) or two lists (decided by the
  first pair of unequal items, else by length); every other pair raises \<open>TypeError\<close>.\<close>

fun py_lt :: "pyval \<Rightarrow> pyval \<Rightarrow> error + bool"
  and list_lt :: "pyval list \<Rightarrow> pyval list \<Rightarrow> error + bool" where
  "py_lt (PStr a) (PStr b) = Inr (str_lt a b)"
| "py_lt (PList xs) (PList ys) = list_lt xs ys"
| "py_lt a b = (case (num_val a, num_val b) of (Some i, Some j) \<Rightarrow> Inr (i < j) | _ \<Rightarrow> Inl TypeError)"
| "list_lt [] [] = Inr False"
| "list_lt [] (y # ys) = Inr True"
| "list_lt (x # xs) [] = Inr False"
| "list_lt (x # xs) (y # ys) = (if py_eq x y then list_lt xs ys else py_lt x y)"

text \<open>\<open>sorted(items, key=...)\<close>: the keys are computed first, then the items are sorted
  stably by \<open><\<close> on the keys; an exception of a key or of a comparison ends the run.\<close>

fun map_err :: "('a \<Rightarrow> error + 'b) \<Rightarrow> 'a list \<Rightarrow> error + 'b list" where
  "map_err f [] = Inr []"
| "map_err f (x # xs) = bnd (f x) (\<lambda>y. bnd (map_err f xs) (\<lambda>ys. Inr (y # ys)))"

fun insert_by :: "pyval \<times> 'a \<Rightarrow> (pyval \<times> 'a) list \<Rightarrow> error + (pyval \<times> 'a) list" where
  "insert_by x [] = Inr [x]"
| "insert_by x (y # ys) =
     bnd (py_lt (fst y) (fst x)) (\<lambda>b.
       if b then bnd (insert_by x ys) (\<lambda>r. Inr (y # r)) else Inr (x # y # ys))"

fun sort_pairs :: "(pyval \<times> 'a) list \<Rightarrow> error + (pyval \<times> 'a) list" where
  "sort_pairs [] = Inr []"
| "sort_pairs (x # xs) = bnd (sort_pairs xs) (insert_by x)"

definition py_sorted :: "('a \<Rightarrow> error + pyval) \<Rightarrow> 'a list \<Rightarrow> error + 'a list" where
  "py_sorted key items =
     bnd (map_err key items) (\<lambda>keys.
     bnd (sort_pairs (zip keys items)) (\<lambda>sorted_pairs. Inr (map snd sorted_pairs)))"

text \<open>\<open>for x in v\<close>: the items of a list, the keys of a dict, the characters of a str.\<close>

fun py_iter :: "pyval \<Rightarrow> error + pyval list" where
  "py_iter (PList xs) = Inr xs"
| "py_iter (PDict kvs) = Inr (map (\<lambda>kv. PStr (fst kv)) kvs)"
| "py_iter (PStr s) = Inr (map (\<lambda>c. PStr [c]) s)"
| "py_iter _ = Inl TypeError"

text \<open>What the run has printed: one string per \<open>print\<close> call, each followed by a newline.\<close>

definition output_of :: "string list \<Rightarrow> string" where
  "output_of printed = concat (map (\<lambda>line. line @ [CHR 0x0A]) printed)"

section \<open>extract\_publishers.py\<close>

text \<open>
  The dict \<open>publishers\<close> maps a GUID to the dict literal the script stores for it. Each
  function below is one block of the script; the names are the script's.
\<close>

text \<open>Lines 13 to 20: the GUID of a publisher feed, from its URL.\<close>

definition resolve_guid :: "pyval \<Rightarrow> error + hashable" where
  "resolve_guid feed_url =
     bnd (py_contains ''wavlake.com/feed/artist/'' feed_url) (\<lambda>wavlake.
       if wavlake then
         bnd (py_split feed_url CHR ''/'') (\<lambda>parts.
         bnd (index_last parts) (\<lambda>seg. Inr (HStr seg)))
       else
         bnd (py_contains ''zine.bitpunk.fm/feeds/publisher.xml'' feed_url) (\<lambda>bitpunk.
           if bitpunk then Inr (HStr ''5883e6be-4e0c-11f0-9524-00155dc57d8e'')
           else Inr HNone))"

text \<open>Lines 11 to 28: the body of the first loop.\<close>

fun primary_step :: "pyval pydict \<Rightarrow> pyval \<Rightarrow> error + pyval pydict" where
  "primary_step publishers (PDict feed) =
     (if dict_get feed ''type'' PNone = PStr ''publisher'' then
        (let feed_url = dict_get feed ''originalUrl'' (PStr [])
         in bnd (resolve_guid feed_url) (\<lambda>feed_guid.
              Inr (dict_set publishers feed_guid
                (PDict [(''feedGuid'', unhash feed_guid),
                        (''feedUrl'', feed_url),
                        (''title'', dict_get feed ''title'' (PStr [])),
                        (''id'', dict_get feed ''id'' (PStr [])),
                        (''parsedData'', dict_get feed ''parsedData'' (PDict []))]))))
      else Inr publishers)"
| "primary_step publishers _ = Inl AttributeError"

text \<open>Line 47: the title of a synthesized entry.\<close>

definition unknown_title :: "pyval \<Rightarrow> string" where
  "unknown_title artist_name =
     (if py_truthy artist_name then ''Unknown Publisher ('' @ py_str artist_name @ '')''
      else ''Unknown Publisher'')"

text \<open>Lines 33 to 54: the body of the second loop, on \<open>publishers\<close> and
  \<open>publisher_references\<close>.\<close>

fun reference_step ::
  "pyval pydict \<times> pyval pydict \<Rightarrow> pyval \<Rightarrow> error + (pyval pydict \<times> pyval pydict)" where
  "reference_step (publishers, publisher_references) (PDict feed) =
     (let parsed_data = dict_get feed ''parsedData'' (PDict [])
      in bnd (py_contains ''album'' parsed_data) (\<lambda>has_album.
         if has_album then
           bnd (py_subscript parsed_data ''album'') (\<lambda>album.
           bnd (py_get album ''publisher'' (PDict [])) (\<lambda>publisher_info.
           bnd (py_get publisher_info ''medium'' PNone) (\<lambda>medium.
             if medium = PStr ''publisher'' then
               bnd (py_get publisher_info ''feedGuid'' PNone) (\<lambda>guid.
                 if py_truthy guid then
                   bnd (py_hash guid) (\<lambda>g.
                     if \<not> dict_mem g publishers then
                       bnd (py_get album ''artist'' (PStr [])) (\<lambda>artist_name.
                       bnd (py_get publisher_info ''feedUrl'' (PStr [])) (\<lambda>url.
                         Inr (dict_set publishers g
                                (PDict [(''feedGuid'', guid),
                                        (''feedUrl'', url),
                                        (''title'', PStr (unknown_title artist_name)),
                                        (''id'', PStr (''publisher-'' @ py_str guid)),
                                        (''parsedData'', PDict [])]),
                              dict_set publisher_references g
                                (PDict [(''referenced_in'', dict_get feed ''title'' (PStr [])),
                                        (''artist_context'', artist_name)]))))
                     else Inr (publishers, publisher_references))
                 else Inr (publishers, publisher_references))
             else Inr (publishers, publisher_references))))
         else Inr (publishers, publisher_references)))"
| "reference_step s _ = Inl AttributeError"

text \<open>\<open>data.get('feeds', [])\<close>, iterated.\<close>

definition feeds_of :: "pyval \<Rightarrow> error + pyval list" where
  "feeds_of data = bnd (py_get data ''feeds'' (PList [])) py_iter"

definition primary_scan :: "pyval \<Rightarrow> error + pyval pydict" where
  "primary_scan data = bnd (feeds_of data) (for_each primary_step [])"

definition extract_publishers :: "pyval \<Rightarrow> error + (pyval pydict \<times> pyval pydict)" where
  "extract_publishers data =
     bnd (primary_scan data) (\<lambda>publishers.
     bnd (feeds_of data) (for_each reference_step (publishers, [])))"




section \<open>final\_publisher\_summary.py\<close>

text \<open>Lines 15 to 22: the GUID of a publisher feed, with the third rule this script adds.\<close>

definition resolve_guid_all :: "pyval \<Rightarrow> error + hashable" where
  "resolve_guid_all original_url =
     bnd (py_contains ''wavlake.com/feed/artist/'' original_url) (\<lambda>wavlake.
       if wavlake then
         bnd (py_split original_url CHR ''/'') (\<lambda>parts.
         bnd (index_last parts) (\<lambda>seg. Inr (HStr seg)))
       else
         bnd (py_contains ''zine.bitpunk.fm/feeds/publisher.xml'' original_url) (\<lambda>bitpunk.
           if bitpunk then Inr (HStr ''5883e6be-4e0c-11f0-9524-00155dc57d8e'')
           else
             bnd (py_contains ''re.podtards.com'' original_url) (\<lambda>podtards.
               if podtards then Inr (HStr ''doerfels-publisher-special'')
               else Inr HNone)))"

text \<open>Lines 10 to 36: the body of the first loop.\<close>

fun primary_step_all :: "pyval pydict \<Rightarrow> pyval \<Rightarrow> error + pyval pydict" where
  "primary_step_all publishers (PDict feed) =
     (if dict_get feed ''type'' PNone = PStr ''publisher'' then
        (let original_url = dict_get feed ''originalUrl'' (PStr [])
         in bnd (resolve_guid_all original_url) (\<lambda>feed_guid.
            bnd (py_get (dict_get feed ''parsedData'' (PDict [])) ''publisherInfo'' (PDict []))
              (\<lambda>publisher_info.
            bnd (py_get publisher_info ''title'' (PStr [])) (\<lambda>publisher_name.
            bnd (py_get publisher_info ''artist'' (PStr [])) (\<lambda>artist.
            bnd (py_get publisher_info ''description'' (PStr [])) (\<lambda>description.
              Inr (dict_set publishers feed_guid
                (PDict [(''feedGuid'', unhash feed_guid),
                        (''feedUrl'', original_url),
                        (''title'', dict_get feed ''title'' (PStr [])),
                        (''id'', dict_get feed ''id'' (PStr [])),
                        (''publisherName'', publisher_name),
                        (''artist'', artist),
                        (''description'', description),
                        (''status'', dict_get feed ''status'' (PStr [])),
                        (''priority'', dict_get feed ''priority'' (PStr []))]))))))))
      else Inr publishers)"
| "primary_step_all publishers _ = Inl AttributeError"

text \<open>
  \<open>unique_feed_guids\<close> is a set of \<open>(guid, url)\<close> tuples. It is kept here as the list of its
  elements in the order they were first added; the order in which Python iterates it is
  another matter (see \<open>extract_all_publishers\<close>). Two tuples are the same element when
  both components are equal keys.
\<close>

definition pair_norm :: "hashable \<times> hashable \<Rightarrow> hashable \<times> hashable" where
  "pair_norm p = (key_norm (fst p), key_norm (snd p))"

definition set_add :: "hashable \<times> hashable \<Rightarrow> (hashable \<times> hashable) list \<Rightarrow> (hashable \<times> hashable) list" where
  "set_add p elems = (if pair_norm p \<in> pair_norm ` set elems then elems else elems @ [p])"

text \<open>Lines 40 to 49: the body of the second loop.\<close>

fun collect_step :: "(hashable \<times> hashable) list \<Rightarrow> pyval \<Rightarrow> error + (hashable \<times> hashable) list" where
  "collect_step unique_feed_guids (PDict feed) =
     (let parsed_data = dict_get feed ''parsedData'' (PDict [])
      in bnd (py_contains ''album'' parsed_data) (\<lambda>has_album.
         if has_album then
           bnd (py_subscript parsed_data ''album'') (\<lambda>album.
           bnd (py_get album ''publisher'' (PDict [])) (\<lambda>publisher_info.
           bnd (py_get publisher_info ''medium'' PNone) (\<lambda>medium.
             if medium = PStr ''publisher'' then
               bnd (py_get publisher_info ''feedGuid'' PNone) (\<lambda>guid.
               bnd (py_get publisher_info ''feedUrl'' (PStr [])) (\<lambda>url.
               bnd (py_hash guid) (\<lambda>g.
               bnd (py_hash url) (\<lambda>u.
                 Inr (set_add (g, u) unique_feed_guids)))))
             else Inr unique_feed_guids)))
         else Inr unique_feed_guids))"
| "collect_step unique_feed_guids _ = Inl AttributeError"

text \<open>Lines 53 to 69: the body of the third loop, for one tuple of the set.\<close>

definition add_missing_step :: "pyval pydict \<Rightarrow> hashable \<times> hashable \<Rightarrow> error + pyval pydict" where
  "add_missing_step publishers p =
     (let guid = fst p; url = snd p in
      if py_truthy (unhash guid) \<and> \<not> dict_mem guid publishers then
        bnd (key_contains ''wavlake.com'' url) (\<lambda>wavlake.
        bnd (if wavlake then
               bnd (py_take8 guid) (\<lambda>g8. Inr (''Wavlake Artist ('' @ g8 @ ''...)''))
             else Inr ''Unknown Publisher'') (\<lambda>name.
          Inr (dict_set publishers guid
            (PDict [(''feedGuid'', unhash guid),
                    (''feedUrl'', unhash url),
                    (''title'', PStr name),
                    (''id'', PStr (''publisher-'' @ py_str (unhash guid))),
                    (''publisherName'', PStr []),
                    (''artist'', PStr []),
                    (''description'', PStr []),
                    (''status'', PStr ''referenced''),
                    (''priority'', PStr ''unknown'')]))))
      else Inr publishers)"

definition primary_scan_all :: "pyval \<Rightarrow> error + pyval pydict" where
  "primary_scan_all data = bnd (feeds_of data) (for_each primary_step_all [])"

definition collect_references :: "pyval \<Rightarrow> error + (hashable \<times> hashable) list" where
  "collect_references data = bnd (feeds_of data) (for_each collect_step [])"

text \<open>
  Lines 3 to 71. Python iterates a set in the order of its hash table, and the hash of a
  str changes from one process to the next, so the order of the third loop is not fixed
  by the document: \<open>set_iter\<close> is the order this run takes, any function that returns its
  argument rearranged (\<open>iteration_order\<close>).
\<close>

definition iteration_order :: "((hashable \<times> hashable) list \<Rightarrow> (hashable \<times> hashable) list) \<Rightarrow> bool" where
  "iteration_order set_iter = (\<forall>elems. mset (set_iter elems) = mset elems)"

definition extract_all_publishers ::
  "((hashable \<times> hashable) list \<Rightarrow> (hashable \<times> hashable) list) \<Rightarrow> pyval \<Rightarrow> error + pyval pydict" where
  "extract_all_publishers set_iter data =
     bnd (primary_scan_all data) (\<lambda>publishers.
     bnd (collect_references data) (\<lambda>unique_feed_guids.
       for_each add_missing_step publishers (set_iter unique_feed_guids)))"

text \<open>Line 78 (and 116, 129): the keys the script leaves out.\<close>

definition skipped :: "hashable \<Rightarrow> bool" where
  "skipped guid = (\<not> py_truthy (unhash guid) \<or> guid = HStr ''None'')"

text \<open>Lines 82 to 94: the display name of an entry.\<close>

definition display_name_of :: "hashable \<Rightarrow> pyval \<Rightarrow> error + pyval" where
  "display_name_of guid info =
     bnd (py_subscript info ''publisherName'') (\<lambda>publisher_name.
     bnd (if py_truthy publisher_name then Inr publisher_name
          else bnd (py_subscript info ''title'') (\<lambda>title.
               if py_truthy title then Inr title else py_subscript info ''artist''))
       (\<lambda>display_name.
         if \<not> py_truthy display_name \<or> display_name = PStr ''Unknown Publisher'' then
           bnd (py_subscript info ''feedUrl'') (\<lambda>url.
           bnd (py_contains ''wavlake.com/feed/artist/'' url) (\<lambda>wavlake.
             if wavlake then
               bnd (py_take8 guid) (\<lambda>g8. Inr (PStr (''Wavlake Artist '' @ g8)))
             else
               bnd (py_contains ''bitpunk.fm'' url) (\<lambda>bitpunk.
                 if bitpunk then Inr (PStr ''BitPunk.fm'')
                 else
                   bnd (py_lower url) (\<lambda>lowered.
                     if str_in ''doerfel'' lowered then Inr (PStr ''The Doerfels'')
                     else bnd (py_take8 guid) (\<lambda>g8. Inr (PStr (''Publisher '' @ g8)))))))
         else Inr display_name))"

text \<open>Line 97: the slug of a display name; only a str has \<open>lower\<close>.\<close>

definition url_slug :: "string \<Rightarrow> string" where
  "url_slug display_name =
     replace CHR ''.'' [] (replace CHR '')'' [] (replace CHR ''('' []
       (replace CHR '' '' ''-'' (lower display_name))))"

fun py_url_slug :: "pyval \<Rightarrow> error + string" where
  "py_url_slug (PStr s) = Inr (url_slug s)"
| "py_url_slug _ = Inl AttributeError"

text \<open>Lines 77 to 105: the body of the loop of \<open>create_human_readable_mappings\<close>.\<close>

definition mapping_step :: "pyval pydict \<Rightarrow> hashable \<times> pyval \<Rightarrow> error + pyval pydict" where
  "mapping_step mappings item =
     (let guid = fst item; info = snd item in
      if skipped guid then Inr mappings
      else
        bnd (display_name_of guid info) (\<lambda>display_name.
        bnd (py_url_slug display_name) (\<lambda>url_safe.
        bnd (py_subscript info ''feedUrl'') (\<lambda>url.
        bnd (py_subscript info ''status'') (\<lambda>status.
          Inr (dict_set mappings guid
            (PDict [(''guid'', unhash guid),
                    (''displayName'', display_name),
                    (''urlSlug'', PStr url_safe),
                    (''feedUrl'', url),
                    (''status'', status)])))))))"

definition create_human_readable_mappings :: "pyval pydict \<Rightarrow> error + pyval pydict" where
  "create_human_readable_mappings publishers = for_each mapping_step [] publishers"

text \<open>Lines 115 to 127: what the first report loop prints for one item.\<close>

definition print_publisher :: "hashable \<times> pyval \<Rightarrow> error + string list" where
  "print_publisher item =
     (let guid = fst item; info = snd item in
      if skipped guid then Inr []
      else
        bnd (py_subscript info ''feedUrl'') (\<lambda>url.
        bnd (py_subscript info ''title'') (\<lambda>title.
        bnd (py_subscript info ''publisherName'') (\<lambda>publisher_name.
        bnd (py_subscript info ''artist'') (\<lambda>artist.
        bnd (py_subscript info ''description'') (\<lambda>description.
        bnd (py_subscript info ''status'') (\<lambda>status.
        bnd (py_subscript info ''priority'') (\<lambda>priority.
          Inr [''Feed GUID: '' @ py_str (unhash guid),
               ''Feed URL: '' @ py_str url,
               ''Title: '' @ py_str title,
               ''Publisher Name: '' @ py_str publisher_name,
               ''Artist: '' @ py_str artist,
               ''Description: '' @ py_str description,
               ''Status: '' @ py_str status,
               ''Priority: '' @ py_str priority,
               replicate 60 CHR ''-'']))))))))"

text \<open>Lines 134 to 140: what the second report loop prints for one item of \<open>mappings\<close>.\<close>

definition print_mapping :: "hashable \<times> pyval \<Rightarrow> error + string list" where
  "print_mapping item =
     (let guid = fst item; mapping = snd item in
        bnd (py_subscript mapping ''displayName'') (\<lambda>display_name.
        bnd (py_subscript mapping ''urlSlug'') (\<lambda>slug.
        bnd (py_subscript mapping ''feedUrl'') (\<lambda>url.
        bnd (py_subscript mapping ''status'') (\<lambda>status.
          Inr [''GUID: '' @ py_str (unhash guid),
               ''Display Name: '' @ py_str display_name,
               ''URL Slug: '' @ py_str slug,
               ''Feed URL: '' @ py_str url,
               ''Status: '' @ py_str status,
               replicate 40 CHR ''-''])))))"

text \<open>Line 115: the sort key of the first report loop.\<close>

definition title_key :: "hashable \<times> pyval \<Rightarrow> error + pyval" where
  "title_key x =
     bnd (py_subscript (snd x) ''title'') (\<lambda>title.
       if py_truthy title then Inr title else Inr (PStr []))"

text \<open>Line 129: the publishers the script counts.\<close>

definition valid_publishers :: "'v pydict \<Rightarrow> hashable list" where
  "valid_publishers publishers = filter (\<lambda>g. \<not> skipped g) (map fst publishers)"

text \<open>Lines 110 to 140: the script run on a loaded document, with the set order of the
  run; the result is what it prints.\<close>

definition final_publisher_summary_main ::
  "((hashable \<times> hashable) list \<Rightarrow> (hashable \<times> hashable) list) \<Rightarrow> pyval \<Rightarrow> error + string list" where
  "final_publisher_summary_main set_iter data =
     bnd (extract_all_publishers set_iter data) (\<lambda>publishers.
     bnd (create_human_readable_mappings publishers) (\<lambda>mappings.
     bnd (py_sorted title_key publishers) (\<lambda>items.
     bnd (map_err print_publisher items) (\<lambda>blocks.
     bnd (py_sorted (\<lambda>x. py_subscript (snd x) ''displayName'') mappings) (\<lambda>mapping_items.
     bnd (map_err print_mapping mapping_items) (\<lambda>mapping_blocks.
       Inr ([''=== ALL UNIQUE PUBLISHERS ==='' @ [CHR 0x0A]]
            @ concat blocks
            @ [CHR 0x0A # ''Total unique publishers: ''
               @ show_nat (length (valid_publishers publishers)),
               CHR 0x0A # ''=== HUMAN-READABLE URL MAPPINGS ==='' @ [CHR 0x0A]]
            @ concat mapping_blocks)))))))"

section \<open>The specification's wording, for comparison\<close>


text \<open>Section 4.4, slug derivation: lowercase, spaces to hyphens, parentheses and periods
  removed.\<close>

definition spec_slug :: "string \<Rightarrow> string" where
  "spec_slug name =
     filter (\<lambda>c. c \<noteq> CHR ''('' \<and> c \<noteq> CHR '')'' \<and> c \<noteq> CHR ''.'')
       (map (\<lambda>c. if c = CHR '' '' then CHR ''-'' else c) (map lower_char name))"

text \<open>The dict literal of lines 26 to 36 and 59 to 69, with its nine values.\<close>

definition summary_entry ::
  "pyval \<Rightarrow> pyval \<Rightarrow> pyval \<Rightarrow> pyval \<Rightarrow> pyval \<Rightarrow> pyval \<Rightarrow> pyval \<Rightarrow> pyval \<Rightarrow> pyval \<Rightarrow> pyval" where
  "summary_entry guid url title ident publisher_name artist description status priority =
     PDict [(''feedGuid'', guid), (''feedUrl'', url), (''title'', title), (''id'', ident),
            (''publisherName'', publisher_name), (''artist'', artist),
            (''description'', description), (''status'', status), (''priority'', priority)]"

text \<open>The record of the specification's first scenario.\<close>

definition wavlake_example :: pyval where
  "wavlake_example =
     PDict [(''type'', PStr ''publisher''),
            (''originalUrl'', PStr ''https://wavlake.com/feed/artist/abc123''),
            (''title'', PStr ''Artist X'')]"

section \<open>Documents of the expected shape\<close>










text \<open>The dict literal of lines 22 to 28 and 44 to 50 of \<open>extract_publishers.py\<close>.\<close>

definition publisher_entry :: "pyval \<Rightarrow> pyval \<Rightarrow> pyval \<Rightarrow> pyval \<Rightarrow> pyval \<Rightarrow> pyval" where
  "publisher_entry guid url title ident parsed_data =
     PDict [(''feedGuid'', guid), (''feedUrl'', url), (''title'', title), (''id'', ident),
            (''parsedData'', parsed_data)]"

text \<open>The keys the first loop stores under: \<open>None\<close> or a str; and a dict all of whose keys
  are such, each once.\<close>

fun none_or_str :: "hashable \<Rightarrow> bool" where
  "none_or_str HNone = True"
| "none_or_str (HStr s) = True"
| "none_or_str _ = False"

definition keys_ok :: "'v pydict \<Rightarrow> bool" where
  "keys_ok d = (distinct (map fst d) \<and> list_all none_or_str (map fst d))"

text \<open>What a scan after the first loop may do to the map: append entries under truthy keys
  that the map did not have.\<close>

definition extends :: "'v pydict \<Rightarrow> 'v pydict \<Rightarrow> bool" where
  "extends d d' =
     (take (length d) d' = d
      \<and> list_all (\<lambda>p. fst p \<noteq> HNone \<and> py_truthy (unhash (fst p)) \<and> \<not> dict_mem (fst p) d)
           (drop (length d) d')
      \<and> (distinct (map (key_norm \<circ> fst) d) \<longrightarrow> distinct (map (key_norm \<circ> fst) d')))"

text \<open>A document with a publisher record, an album that refers to it and an album that
  refers to a publisher without a record.\<close>

definition reference_example :: pyval where
  "reference_example =
     PDict [(''feeds'', PList
       [wavlake_example,
        PDict [(''title'', PStr ''Album 1''),
               (''parsedData'', PDict [(''album'', PDict
                  [(''artist'', PStr ''Artist X''),
                   (''publisher'', PDict [(''medium'', PStr ''publisher''),
                                          (''feedGuid'', PStr ''abc123''),
                                          (''feedUrl'', PStr ''v'')])])])],
        PDict [(''title'', PStr ''Album 2''),
               (''parsedData'', PDict [(''album'', PDict
                  [(''artist'', PStr ''Band Y''),
                   (''publisher'', PDict [(''medium'', PStr ''publisher''),
                                          (''feedGuid'', PStr ''xyz''),
                                          (''feedUrl'', PStr ''u'')])])])]])]"




text \<open>A document of two albums, each referring to a publisher that has no record.\<close>

definition two_references :: pyval where
  "two_references =
     PDict [(''feeds'', PList
       [PDict [(''parsedData'', PDict [(''album'', PDict
                  [(''publisher'', PDict [(''medium'', PStr ''publisher''),
                                          (''feedGuid'', PStr ''g1''),
                                          (''feedUrl'', PStr ''u1'')])])])],
        PDict [(''parsedData'', PDict [(''album'', PDict
                  [(''publisher'', PDict [(''medium'', PStr ''publisher''),
                                          (''feedGuid'', PStr ''g2''),
                                          (''feedUrl'', PStr ''u2'')])])])]])]"








section \<open>Basic facts\<close>

lemma bnd_Inr [simp]: "bnd (Inr x) f = f x"
  by (simp add: bnd_def)

lemma bnd_Inl [simp]: "bnd (Inl e) f = Inl e"
  by (simp add: bnd_def)

lemma bnd_eq_Inr: "bnd m f = Inr y \<longleftrightarrow> (\<exists>x. m = Inr x \<and> f x = Inr y)"
  by (cases m) auto

lemma str_in_sublist: "str_in sub s \<longleftrightarrow> sublist sub s"
  by (induction s) (auto simp: sublist_Cons_right)

lemma str_in_iff: "str_in sub s \<longleftrightarrow> (\<exists>ps ss. s = ps @ sub @ ss)"
  by (simp add: str_in_sublist sublist_def)

lemma str_in_elem: "str_in sub s \<Longrightarrow> c \<in> set sub \<Longrightarrow> c \<in> set s"
  by (auto simp: str_in_iff)

subsection \<open>\<open>split\<close>\<close>

lemma split_on_nonempty [simp]: "split_on c s \<noteq> []"
  by (induction s) (auto split: list.splits)

lemma split_on_no_sep: "seg \<in> set (split_on c s) \<Longrightarrow> c \<notin> set seg"
  by (induction s arbitrary: seg) (auto split: list.splits if_splits)

lemma split_on_absent: "c \<notin> set s \<Longrightarrow> split_on c s = [s]"
  by (induction s) auto

lemma split_on_present: "c \<in> set s \<Longrightarrow> tl (split_on c s) \<noteq> []"
  by (induction s) (auto split: list.splits)

lemma last_split_on_Cons:
  "last (split_on c (x # xs)) =
     (if x = c \<or> c \<in> set xs then last (split_on c xs) else x # xs)"
proof (cases "x = c")
  case True
  then show ?thesis by simp
next
  case False
  show ?thesis
  proof (cases "c \<in> set xs")
    case True
    then obtain seg s2 segs where "split_on c xs = seg # s2 # segs"
      using split_on_present [of c xs] split_on_nonempty [of c xs]
      by (cases "split_on c xs") (auto simp: neq_Nil_conv)
    then show ?thesis using False True by simp
  next
    case False
    then show ?thesis using \<open>x \<noteq> c\<close> by (simp add: split_on_absent)
  qed
qed

lemma last_split_on_suffix:
  "c \<in> set s \<Longrightarrow> \<exists>pre. s = pre @ c # last (split_on c s)"
proof (induction s)
  case Nil
  then show ?case by simp
next
  case (Cons x xs)
  show ?case
  proof (cases "c \<in> set xs")
    case True
    then obtain pre where "xs = pre @ c # last (split_on c xs)"
      using Cons.IH by blast
    then have "x # xs = (x # pre) @ c # last (split_on c (x # xs))"
      using True by (simp only: last_split_on_Cons) simp
    then show ?thesis by blast
  next
    case False
    then have xc: "x = c" using Cons.prems by simp
    have "x # xs = [] @ c # last (split_on c (x # xs))"
      using False xc by (simp add: split_on_absent)
    then show ?thesis by blast
  qed
qed

lemma last_split_on_no_sep: "c \<notin> set (last (split_on c s))"
  using split_on_no_sep [of "last (split_on c s)" c s] by simp

subsection \<open>Dicts\<close>

lemma dict_lookup_dict_set:
  "dict_lookup (dict_set d k v) k' =
     (if key_norm k = key_norm k' then Some v else dict_lookup d k')"
  by (induction d) auto


lemma dict_lookup_None_iff: "dict_lookup d k = None \<longleftrightarrow> key_norm k \<notin> (key_norm \<circ> fst) ` set d"
  by (induction d) (auto split: if_splits)

lemma dict_set_absent: "\<not> dict_mem k d \<Longrightarrow> dict_set d k v = d @ [(k, v)]"
  by (induction d) (auto simp: dict_mem_def)

lemma dict_set_keys:
  "map (key_norm \<circ> fst) (dict_set d k v) =
     (if dict_mem k d then map (key_norm \<circ> fst) d else map (key_norm \<circ> fst) d @ [key_norm k])"
  by (induction d) (auto simp: dict_mem_def split: if_splits)

lemma dict_set_distinct:
  "distinct (map (key_norm \<circ> fst) d) \<Longrightarrow> distinct (map (key_norm \<circ> fst) (dict_set d k v))"
  by (simp add: dict_set_keys dict_mem_def dict_lookup_None_iff)

subsection \<open>The two resolvers\<close>

lemma resolve_guid_str:
  "resolve_guid (PStr url) =
     Inr (if str_in ''wavlake.com/feed/artist/'' url then HStr (last (split_on CHR ''/'' url))
          else if str_in ''zine.bitpunk.fm/feeds/publisher.xml'' url
               then HStr ''5883e6be-4e0c-11f0-9524-00155dc57d8e''
          else HNone)"
  by (simp add: resolve_guid_def index_last_def)

lemma resolve_guid_all_str:
  "resolve_guid_all (PStr url) =
     Inr (if str_in ''wavlake.com/feed/artist/'' url then HStr (last (split_on CHR ''/'' url))
          else if str_in ''zine.bitpunk.fm/feeds/publisher.xml'' url
               then HStr ''5883e6be-4e0c-11f0-9524-00155dc57d8e''
          else if str_in ''re.podtards.com'' url then HStr ''doerfels-publisher-special''
          else HNone)"
  by (simp add: resolve_guid_all_def index_last_def)

lemma primary_step_all_stores:
  assumes "dict_get feed ''type'' PNone = PStr ''publisher''"
    and "resolve_guid_all (dict_get feed ''originalUrl'' (PStr [])) = Inr guid"
    and "primary_step_all publishers (PDict feed) = Inr publishers'"
  shows "\<exists>publisher_name artist description.
           dict_lookup publishers' guid =
             Some (summary_entry (unhash guid) (dict_get feed ''originalUrl'' (PStr []))
                     (dict_get feed ''title'' (PStr [])) (dict_get feed ''id'' (PStr []))
                     publisher_name artist description
                     (dict_get feed ''status'' (PStr [])) (dict_get feed ''priority'' (PStr [])))"
  using assms
  by (auto simp: bnd_eq_Inr dict_lookup_dict_set summary_entry_def)

lemma iteration_order_Nil: "iteration_order set_iter \<Longrightarrow> set_iter [] = []"
  by (metis iteration_order_def mset_zero_iff)


lemma iteration_order_id: "iteration_order id"
  by (simp add: iteration_order_def)

lemma iteration_order_rev: "iteration_order rev"
  by (simp add: iteration_order_def)

subsection \<open>Loops that keep an invariant\<close>


lemma for_each_preserves:
  assumes "for_each step s xs = Inr s'" and "I s"
    and "\<And>s x s'. I s \<Longrightarrow> x \<in> set xs \<Longrightarrow> step s x = Inr s' \<Longrightarrow> I s'"
  shows "I s'"
  using assms
proof (induction xs arbitrary: s)
  case Nil
  then show ?case by simp
next
  case (Cons x xs)
  from Cons.prems(1) obtain s1 where s1: "step s x = Inr s1" "for_each step s1 xs = Inr s'"
    by (auto split: sum.splits)
  have "I s1" using Cons.prems(2,3) s1(1) by (meson list.set_intros(1))
  then show ?case
    using Cons.IH [OF s1(2)] Cons.prems(3) by (meson list.set_intros(2))
qed

lemma for_each_append:
  "for_each step s (xs @ ys) =
     (case for_each step s xs of Inl e \<Rightarrow> Inl e | Inr s' \<Rightarrow> for_each step s' ys)"
  by (induction xs arbitrary: s) (auto split: sum.splits)



lemma map_err_length: "map_err f xs = Inr ys \<Longrightarrow> length ys = length xs"
  by (induction xs arbitrary: ys) (auto simp: bnd_eq_Inr)

subsection \<open>Sorting by string keys never raises\<close>




lemma none_or_str_iff: "none_or_str k = (k = HNone \<or> (\<exists>s. k = HStr s))"
  by (cases k) auto

lemma keys_ok_iff: "keys_ok d = (distinct (map fst d) \<and> (\<forall>k \<in> fst ` set d. none_or_str k))"
  unfolding keys_ok_def by (auto simp: list_all_iff)

subsection \<open>Keys of the primary scan\<close>


lemma none_or_str_norm: "none_or_str k \<Longrightarrow> key_norm k = k"
  by (auto simp: none_or_str_iff)

lemma none_or_str_norm_eq:
  "none_or_str k \<Longrightarrow> none_or_str k' \<Longrightarrow> key_norm k = key_norm k' \<longleftrightarrow> k = k'"
  by (auto simp: none_or_str_iff)

lemma resolve_guid_key: "resolve_guid url = Inr g \<Longrightarrow> none_or_str g"
  by (auto simp: resolve_guid_def bnd_eq_Inr none_or_str_iff split: if_splits)

lemma resolve_guid_all_key: "resolve_guid_all url = Inr g \<Longrightarrow> none_or_str g"
  by (auto simp: resolve_guid_all_def bnd_eq_Inr none_or_str_iff split: if_splits)


lemma dict_set_key_elems:
  "k' \<in> fst ` set (dict_set d k v) \<Longrightarrow> k' \<in> fst ` set d \<or> k' = k"
proof (induction d)
  case Nil
  then show ?case by simp
next
  case (Cons p d)
  obtain a b where p: "p = (a, b)" by (cases p)
  show ?case
  proof (cases "key_norm a = key_norm k")
    case True
    then have "dict_set (p # d) k v = (a, v) # d" using p by simp
    then show ?thesis using Cons.prems p by auto
  next
    case False
    then have "dict_set (p # d) k v = (a, b) # dict_set d k v" using p by simp
    then have "k' = a \<or> k' \<in> fst ` set (dict_set d k v)" using Cons.prems by auto
    then show ?thesis using Cons.IH p by auto
  qed
qed


lemma dict_lookup_append:
  "dict_lookup (d @ d') k = (case dict_lookup d k of Some v \<Rightarrow> Some v | None \<Rightarrow> dict_lookup d' k)"
  by (induction d) auto

subsection \<open>One step of the first loop\<close>

lemma primary_step_publisher:
  assumes "dict_get f ''type'' PNone = PStr ''publisher''"
  shows "primary_step publishers (PDict f) =
           bnd (resolve_guid (dict_get f ''originalUrl'' (PStr []))) (\<lambda>g.
             Inr (dict_set publishers g
               (publisher_entry (unhash g) (dict_get f ''originalUrl'' (PStr []))
                  (dict_get f ''title'' (PStr [])) (dict_get f ''id'' (PStr []))
                  (dict_get f ''parsedData'' (PDict [])))))"
  using assms by (simp add: publisher_entry_def Let_def)

lemma primary_step_other:
  "dict_get f ''type'' PNone \<noteq> PStr ''publisher'' \<Longrightarrow> primary_step publishers (PDict f) = Inr publishers"
  by simp

lemma primary_step_result:
  assumes "primary_step publishers x = Inr publishers'"
  shows "publishers' = publishers \<or>
         (\<exists>f g. x = PDict f \<and> dict_get f ''type'' PNone = PStr ''publisher''
               \<and> resolve_guid (dict_get f ''originalUrl'' (PStr [])) = Inr g
               \<and> publishers' = dict_set publishers g
                    (publisher_entry (unhash g) (dict_get f ''originalUrl'' (PStr []))
                       (dict_get f ''title'' (PStr [])) (dict_get f ''id'' (PStr []))
                       (dict_get f ''parsedData'' (PDict []))))"
proof (cases x)
  case (PDict f)
  show ?thesis
  proof (cases "dict_get f ''type'' PNone = PStr ''publisher''")
    case True
    then show ?thesis
      using assms PDict by (auto simp: primary_step_publisher bnd_eq_Inr simp del: primary_step.simps)
  next
    case False
    then show ?thesis using assms PDict by simp
  qed
qed (use assms in auto)

lemma primary_step_all_publisher:
  assumes "dict_get f ''type'' PNone = PStr ''publisher''"
  shows "primary_step_all publishers (PDict f) =
           bnd (resolve_guid_all (dict_get f ''originalUrl'' (PStr []))) (\<lambda>g.
           bnd (py_get (dict_get f ''parsedData'' (PDict [])) ''publisherInfo'' (PDict [])) (\<lambda>i.
           bnd (py_get i ''title'' (PStr [])) (\<lambda>publisher_name.
           bnd (py_get i ''artist'' (PStr [])) (\<lambda>artist.
           bnd (py_get i ''description'' (PStr [])) (\<lambda>description.
             Inr (dict_set publishers g
               (summary_entry (unhash g) (dict_get f ''originalUrl'' (PStr []))
                  (dict_get f ''title'' (PStr [])) (dict_get f ''id'' (PStr []))
                  publisher_name artist description
                  (dict_get f ''status'' (PStr [])) (dict_get f ''priority'' (PStr [])))))))))"
  using assms by (simp add: summary_entry_def Let_def)

lemma primary_step_all_result:
  assumes "primary_step_all publishers x = Inr publishers'"
  shows "publishers' = publishers \<or>
         (\<exists>f g i. x = PDict f \<and> dict_get f ''type'' PNone = PStr ''publisher''
               \<and> resolve_guid_all (dict_get f ''originalUrl'' (PStr [])) = Inr g
               \<and> py_get (dict_get f ''parsedData'' (PDict [])) ''publisherInfo'' (PDict []) = Inr (PDict i)
               \<and> publishers' = dict_set publishers g
                    (summary_entry (unhash g) (dict_get f ''originalUrl'' (PStr []))
                       (dict_get f ''title'' (PStr [])) (dict_get f ''id'' (PStr []))
                       (dict_get i ''title'' (PStr [])) (dict_get i ''artist'' (PStr []))
                       (dict_get i ''description'' (PStr []))
                       (dict_get f ''status'' (PStr [])) (dict_get f ''priority'' (PStr []))))"
proof (cases x)
  case (PDict f)
  show ?thesis
  proof (cases "dict_get f ''type'' PNone = PStr ''publisher''")
    case True
    from assms obtain g i where gi:
      "resolve_guid_all (dict_get f ''originalUrl'' (PStr [])) = Inr g"
      "py_get (dict_get f ''parsedData'' (PDict [])) ''publisherInfo'' (PDict []) = Inr i"
      unfolding PDict primary_step_all_publisher [OF True] by (auto simp: bnd_eq_Inr)
    from assms gi obtain kvs where "i = PDict kvs"
      unfolding PDict primary_step_all_publisher [OF True] by (cases i) (auto simp: bnd_eq_Inr)
    then show ?thesis
      using assms gi True unfolding PDict primary_step_all_publisher [OF True]
      by (auto simp: bnd_eq_Inr)
  next
    case False
    then show ?thesis using assms PDict by simp
  qed
qed (use assms in auto)

subsection \<open>The first loop: distinct keys, last write wins\<close>


lemma none_or_str_keys:
  "\<forall>k \<in> fst ` set d. none_or_str k \<Longrightarrow> map (key_norm \<circ> fst) d = map fst d"
  by (induction d) (simp_all add: none_or_str_norm)

lemma keys_ok_dict_set:
  assumes "keys_ok d" and "none_or_str k"
  shows "keys_ok (dict_set d k v)"
proof -
  have all: "\<forall>k' \<in> fst ` set (dict_set d k v). none_or_str k'"
  proof
    fix k' assume "k' \<in> fst ` set (dict_set d k v)"
    then have "k' \<in> fst ` set d \<or> k' = k" by (rule dict_set_key_elems)
    then show "none_or_str k'" using assms by (auto simp: keys_ok_iff)
  qed
  have e: "map (key_norm \<circ> fst) d = map fst d"
    using assms(1) by (intro none_or_str_keys) (simp add: keys_ok_iff)
  have "distinct (map fst d)"
    using assms(1) by (simp add: keys_ok_iff)
  then have "distinct (map (key_norm \<circ> fst) d)"
    by (simp only: e)
  then have "distinct (map (key_norm \<circ> fst) (dict_set d k v))"
    by (rule dict_set_distinct)
  then have "distinct (map fst (dict_set d k v))"
    by (simp only: none_or_str_keys [OF all])
  then show ?thesis using all by (simp add: keys_ok_iff)
qed

lemma keys_ok_Nil: "keys_ok []"
  by (simp add: keys_ok_iff)

lemma keys_ok_primary_step:
  assumes "keys_ok publishers" and "primary_step publishers x = Inr publishers'"
  shows "keys_ok publishers'"
proof -
  from primary_step_result [OF assms(2)] show ?thesis
  proof
    assume "publishers' = publishers"
    then show ?thesis using assms(1) by simp
  next
    assume "\<exists>f g. x = PDict f \<and> dict_get f ''type'' PNone = PStr ''publisher''
               \<and> resolve_guid (dict_get f ''originalUrl'' (PStr [])) = Inr g
               \<and> publishers' = dict_set publishers g
                    (publisher_entry (unhash g) (dict_get f ''originalUrl'' (PStr []))
                       (dict_get f ''title'' (PStr [])) (dict_get f ''id'' (PStr []))
                       (dict_get f ''parsedData'' (PDict [])))"
    then obtain f g where g: "resolve_guid (dict_get f ''originalUrl'' (PStr [])) = Inr g"
      and p: "publishers' = dict_set publishers g
                    (publisher_entry (unhash g) (dict_get f ''originalUrl'' (PStr []))
                       (dict_get f ''title'' (PStr [])) (dict_get f ''id'' (PStr []))
                       (dict_get f ''parsedData'' (PDict [])))"
      by blast
    show ?thesis
      unfolding p using assms(1) resolve_guid_key [OF g] by (rule keys_ok_dict_set)
  qed
qed

lemma keys_ok_primary_step_all:
  assumes "keys_ok publishers" and "primary_step_all publishers x = Inr publishers'"
  shows "keys_ok publishers'"
proof -
  from primary_step_all_result [OF assms(2)] show ?thesis
  proof
    assume "publishers' = publishers"
    then show ?thesis using assms(1) by simp
  next
    assume "\<exists>f g i. x = PDict f \<and> dict_get f ''type'' PNone = PStr ''publisher''
               \<and> resolve_guid_all (dict_get f ''originalUrl'' (PStr [])) = Inr g
               \<and> py_get (dict_get f ''parsedData'' (PDict [])) ''publisherInfo'' (PDict []) = Inr (PDict i)
               \<and> publishers' = dict_set publishers g
                    (summary_entry (unhash g) (dict_get f ''originalUrl'' (PStr []))
                       (dict_get f ''title'' (PStr [])) (dict_get f ''id'' (PStr []))
                       (dict_get i ''title'' (PStr [])) (dict_get i ''artist'' (PStr []))
                       (dict_get i ''description'' (PStr []))
                       (dict_get f ''status'' (PStr [])) (dict_get f ''priority'' (PStr [])))"
    then obtain f g i where g: "resolve_guid_all (dict_get f ''originalUrl'' (PStr [])) = Inr g"
      and p: "publishers' = dict_set publishers g
                    (summary_entry (unhash g) (dict_get f ''originalUrl'' (PStr []))
                       (dict_get f ''title'' (PStr [])) (dict_get f ''id'' (PStr []))
                       (dict_get i ''title'' (PStr [])) (dict_get i ''artist'' (PStr []))
                       (dict_get i ''description'' (PStr []))
                       (dict_get f ''status'' (PStr [])) (dict_get f ''priority'' (PStr [])))"
      by blast
    show ?thesis
      unfolding p using assms(1) resolve_guid_all_key [OF g] by (rule keys_ok_dict_set)
  qed
qed

lemma keys_ok_primary_loop:
  assumes "for_each primary_step [] feeds = Inr publishers"
  shows "keys_ok publishers"
  using assms keys_ok_Nil
proof (rule for_each_preserves)
  fix s x s' assume "keys_ok s" "primary_step s x = Inr s'"
  then show "keys_ok s'" by (rule keys_ok_primary_step)
qed

lemma keys_ok_primary_loop_all:
  assumes "for_each primary_step_all [] feeds = Inr publishers"
  shows "keys_ok publishers"
  using assms keys_ok_Nil
proof (rule for_each_preserves)
  fix s x s' assume "keys_ok s" "primary_step_all s x = Inr s'"
  then show "keys_ok s'" by (rule keys_ok_primary_step_all)
qed

lemma keys_ok_lookup:
  "keys_ok d \<Longrightarrow> none_or_str k \<Longrightarrow> dict_lookup d k = map_of d k"
  by (induction d) (auto simp: keys_ok_iff none_or_str_norm_eq)

lemma primary_loop_keeps:
  assumes "for_each primary_step publishers post = Inr publishers'"
    and "none_or_str g"
    and "\<And>f. PDict f \<in> set post \<Longrightarrow> dict_get f ''type'' PNone = PStr ''publisher'' \<Longrightarrow>
           resolve_guid (dict_get f ''originalUrl'' (PStr [])) \<noteq> Inr g"
  shows "dict_lookup publishers' g = dict_lookup publishers g"
  using assms
proof (induction post arbitrary: publishers)
  case Nil
  then show ?case by simp
next
  case (Cons x post)
  from Cons.prems(1) obtain p1 where p1:
    "primary_step publishers x = Inr p1" "for_each primary_step p1 post = Inr publishers'"
    by (auto split: sum.splits)
  have "dict_lookup p1 g = dict_lookup publishers g"
    using primary_step_result [OF p1(1)] Cons.prems(2,3) resolve_guid_key
    by (auto simp: dict_lookup_dict_set none_or_str_norm_eq)
  moreover have "dict_lookup publishers' g = dict_lookup p1 g"
    using Cons.IH [OF p1(2) Cons.prems(2)] Cons.prems(3) by simp
  ultimately show ?case by simp
qed

lemma primary_loop_all_keeps:
  assumes "for_each primary_step_all publishers post = Inr publishers'"
    and "none_or_str g"
    and "\<And>f. PDict f \<in> set post \<Longrightarrow> dict_get f ''type'' PNone = PStr ''publisher'' \<Longrightarrow>
           resolve_guid_all (dict_get f ''originalUrl'' (PStr [])) \<noteq> Inr g"
  shows "dict_lookup publishers' g = dict_lookup publishers g"
  using assms
proof (induction post arbitrary: publishers)
  case Nil
  then show ?case by simp
next
  case (Cons x post)
  from Cons.prems(1) obtain p1 where p1:
    "primary_step_all publishers x = Inr p1" "for_each primary_step_all p1 post = Inr publishers'"
    by (auto split: sum.splits)
  have "dict_lookup p1 g = dict_lookup publishers g"
    using primary_step_all_result [OF p1(1)] Cons.prems(2,3) resolve_guid_all_key
    by (auto simp: dict_lookup_dict_set none_or_str_norm_eq)
  moreover have "dict_lookup publishers' g = dict_lookup p1 g"
    using Cons.IH [OF p1(2) Cons.prems(2)] Cons.prems(3) by simp
  ultimately show ?case by simp
qed

lemma keys_ok_unique:
  "keys_ok d \<Longrightarrow> none_or_str g \<Longrightarrow> dict_lookup d g = Some e \<Longrightarrow>
     filter (\<lambda>p. fst p = g) d = [(g, e)]"
proof (induction d)
  case Nil
  then show ?case by simp
next
  case (Cons p d)
  obtain a b where p: "p = (a, b)" by (cases p)
  have ok: "keys_ok d" "none_or_str a" "a \<notin> fst ` set d"
    using Cons.prems(1) p by (auto simp: keys_ok_iff)
  show ?case
  proof (cases "a = g")
    case True
    then have "b = e" using Cons.prems(3) p by simp
    moreover have "filter (\<lambda>p. fst p = g) d = []"
      using ok(3) True by (auto simp: filter_empty_conv)
    ultimately show ?thesis using p True by simp
  next
    case False
    then have "key_norm a \<noteq> key_norm g"
      using ok(2) Cons.prems(2) by (simp add: none_or_str_norm_eq)
    then have "dict_lookup d g = Some e" using Cons.prems(3) p by simp
    then show ?thesis using Cons.IH ok(1) Cons.prems(2) p False by simp
  qed
qed

lemma primary_scan_unfold:
  "feeds_of data = Inr feeds \<Longrightarrow> primary_scan data = for_each primary_step [] feeds"
  by (simp add: primary_scan_def)

lemma primary_scan_all_unfold:
  "feeds_of data = Inr feeds \<Longrightarrow> primary_scan_all data = for_each primary_step_all [] feeds"
  by (simp add: primary_scan_all_def)

lemma for_each_split:
  assumes "for_each step s (pre @ x # post) = Inr s'"
  shows "\<exists>s1 s2. for_each step s pre = Inr s1 \<and> step s1 x = Inr s2 \<and> for_each step s2 post = Inr s'"
  using assms by (auto simp: for_each_append split: sum.splits)

lemma primary_last_write:
  assumes "for_each primary_step [] (pre @ PDict f # post) = Inr publishers"
    and "dict_get f ''type'' PNone = PStr ''publisher''"
    and "resolve_guid (dict_get f ''originalUrl'' (PStr [])) = Inr g"
    and "\<And>f'. PDict f' \<in> set post \<Longrightarrow> dict_get f' ''type'' PNone = PStr ''publisher'' \<Longrightarrow>
           resolve_guid (dict_get f' ''originalUrl'' (PStr [])) \<noteq> Inr g"
  shows "filter (\<lambda>p. fst p = g) publishers =
           [(g, publisher_entry (unhash g) (dict_get f ''originalUrl'' (PStr []))
                  (dict_get f ''title'' (PStr [])) (dict_get f ''id'' (PStr []))
                  (dict_get f ''parsedData'' (PDict [])))]"
proof -
  let ?e = "publisher_entry (unhash g) (dict_get f ''originalUrl'' (PStr []))
                  (dict_get f ''title'' (PStr [])) (dict_get f ''id'' (PStr []))
                  (dict_get f ''parsedData'' (PDict []))"
  obtain p1 p2 where s: "for_each primary_step [] pre = Inr p1"
    "primary_step p1 (PDict f) = Inr p2" "for_each primary_step p2 post = Inr publishers"
    using for_each_split [OF assms(1)] by blast
  have p2: "p2 = dict_set p1 g ?e"
    using s(2) assms(3) unfolding primary_step_publisher [OF assms(2)] by simp
  have g: "none_or_str g" using assms(3) by (rule resolve_guid_key)
  have "dict_lookup publishers g = dict_lookup p2 g"
    using s(3) g assms(4) by (rule primary_loop_keeps)
  then have l: "dict_lookup publishers g = Some ?e"
    by (simp add: p2 dict_lookup_dict_set)
  have "keys_ok publishers" using assms(1) by (rule keys_ok_primary_loop)
  then show ?thesis using g l by (rule keys_ok_unique)
qed

lemma primary_all_last_write:
  assumes "for_each primary_step_all [] (pre @ PDict f # post) = Inr publishers"
    and "dict_get f ''type'' PNone = PStr ''publisher''"
    and "resolve_guid_all (dict_get f ''originalUrl'' (PStr [])) = Inr g"
    and "\<And>f'. PDict f' \<in> set post \<Longrightarrow> dict_get f' ''type'' PNone = PStr ''publisher'' \<Longrightarrow>
           resolve_guid_all (dict_get f' ''originalUrl'' (PStr [])) \<noteq> Inr g"
  shows "\<exists>i. py_get (dict_get f ''parsedData'' (PDict [])) ''publisherInfo'' (PDict []) = Inr (PDict i)
           \<and> filter (\<lambda>p. fst p = g) publishers =
           [(g, summary_entry (unhash g) (dict_get f ''originalUrl'' (PStr []))
                  (dict_get f ''title'' (PStr [])) (dict_get f ''id'' (PStr []))
                  (dict_get i ''title'' (PStr [])) (dict_get i ''artist'' (PStr []))
                  (dict_get i ''description'' (PStr []))
                  (dict_get f ''status'' (PStr [])) (dict_get f ''priority'' (PStr [])))]"
proof -
  obtain p1 p2 where s: "for_each primary_step_all [] pre = Inr p1"
    "primary_step_all p1 (PDict f) = Inr p2" "for_each primary_step_all p2 post = Inr publishers"
    using for_each_split [OF assms(1)] by blast
  obtain i where i: "py_get (dict_get f ''parsedData'' (PDict [])) ''publisherInfo'' (PDict []) = Inr i"
    using s(2) assms(3) unfolding primary_step_all_publisher [OF assms(2)]
    by (auto simp: bnd_eq_Inr)
  obtain kvs where kvs: "i = PDict kvs"
    using s(2) assms(3) i unfolding primary_step_all_publisher [OF assms(2)]
    by (cases i) (auto simp: bnd_eq_Inr)
  let ?e = "summary_entry (unhash g) (dict_get f ''originalUrl'' (PStr []))
                  (dict_get f ''title'' (PStr [])) (dict_get f ''id'' (PStr []))
                  (dict_get kvs ''title'' (PStr [])) (dict_get kvs ''artist'' (PStr []))
                  (dict_get kvs ''description'' (PStr []))
                  (dict_get f ''status'' (PStr [])) (dict_get f ''priority'' (PStr []))"
  have p2: "p2 = dict_set p1 g ?e"
    using s(2) assms(3) i kvs unfolding primary_step_all_publisher [OF assms(2)] by simp
  have g: "none_or_str g" using assms(3) by (rule resolve_guid_all_key)
  have "dict_lookup publishers g = dict_lookup p2 g"
    using s(3) g assms(4) by (rule primary_loop_all_keeps)
  then have l: "dict_lookup publishers g = Some ?e"
    by (simp add: p2 dict_lookup_dict_set)
  have "keys_ok publishers" using assms(1) by (rule keys_ok_primary_loop_all)
  then have "filter (\<lambda>p. fst p = g) publishers = [(g, ?e)]"
    using g l by (rule keys_ok_unique)
  then show ?thesis using i kvs by simp
qed

subsection \<open>The reference scans only append\<close>

lemma py_hash_unhash: "py_hash v = Inr g \<Longrightarrow> unhash g = v"
  by (cases v) auto

lemma bndE:
  assumes "bnd m f = Inr y"
  obtains x where "m = Inr x" "f x = Inr y"
  using assms by (cases m) auto

lemma reference_step_result:
  assumes "reference_step (publishers, refs) x = Inr (publishers', refs')"
  shows "(publishers' = publishers \<and> refs' = refs) \<or>
         (\<exists>g e r. py_truthy (unhash g) \<and> \<not> dict_mem g publishers
                \<and> publishers' = publishers @ [(g, e)] \<and> refs' = dict_set refs g r)"
proof (cases x)
  case (PDict f)
  show ?thesis
    using assms unfolding PDict reference_step.simps Let_def
    by (elim bndE) (force simp: dict_set_absent py_hash_unhash split: if_splits elim!: bndE)
qed (use assms in auto)

lemma add_missing_step_result:
  assumes "add_missing_step publishers p = Inr publishers'"
  shows "publishers' = publishers \<or>
         (\<exists>e. py_truthy (unhash (fst p)) \<and> \<not> dict_mem (fst p) publishers
              \<and> publishers' = publishers @ [(fst p, e)])"
  using assms unfolding add_missing_step_def Let_def
  by (force simp: dict_set_absent split: if_splits elim!: bndE)


lemma extends_iff:
  "extends d d' \<longleftrightarrow>
     (\<exists>added. d' = d @ added
        \<and> (\<forall>p \<in> set added. fst p \<noteq> HNone \<and> py_truthy (unhash (fst p)) \<and> \<not> dict_mem (fst p) d)
        \<and> (distinct (map (key_norm \<circ> fst) d) \<longrightarrow> distinct (map (key_norm \<circ> fst) d')))"
proof
  assume e: "extends d d'"
  then have "d' = d @ drop (length d) d'"
    unfolding extends_def by (metis append_take_drop_id)
  then show "\<exists>added. d' = d @ added
        \<and> (\<forall>p \<in> set added. fst p \<noteq> HNone \<and> py_truthy (unhash (fst p)) \<and> \<not> dict_mem (fst p) d)
        \<and> (distinct (map (key_norm \<circ> fst) d) \<longrightarrow> distinct (map (key_norm \<circ> fst) d'))"
    using e unfolding extends_def list_all_iff by blast
next
  assume "\<exists>added. d' = d @ added
        \<and> (\<forall>p \<in> set added. fst p \<noteq> HNone \<and> py_truthy (unhash (fst p)) \<and> \<not> dict_mem (fst p) d)
        \<and> (distinct (map (key_norm \<circ> fst) d) \<longrightarrow> distinct (map (key_norm \<circ> fst) d'))"
  then show "extends d d'"
    unfolding extends_def list_all_iff by auto
qed

lemma extends_refl: "extends d d"
  by (auto simp: extends_iff)

lemma dict_mem_append: "dict_mem k (d @ d') \<longleftrightarrow> dict_mem k d \<or> dict_mem k d'"
  by (auto simp: dict_mem_def dict_lookup_append split: option.splits)

lemma dict_mem_keys: "dict_mem k d \<longleftrightarrow> key_norm k \<in> (key_norm \<circ> fst) ` set d"
  using dict_lookup_None_iff [of d k] by (simp add: dict_mem_def)

lemma truthy_not_None: "py_truthy (unhash g) \<Longrightarrow> g \<noteq> HNone"
  by auto

lemma extends_step:
  assumes "extends d d1" and "py_truthy (unhash g)" and "\<not> dict_mem g d1"
  shows "extends d (d1 @ [(g, e)])"
proof -
  obtain added where a: "d1 = d @ added"
    "\<forall>p \<in> set added. fst p \<noteq> HNone \<and> py_truthy (unhash (fst p)) \<and> \<not> dict_mem (fst p) d"
    "distinct (map (key_norm \<circ> fst) d) \<longrightarrow> distinct (map (key_norm \<circ> fst) d1)"
    using assms(1) unfolding extends_iff by blast
  have m: "\<not> dict_mem g d" using assms(3) a(1) by (simp add: dict_mem_append)
  have 1: "d1 @ [(g, e)] = d @ (added @ [(g, e)])" using a(1) by simp
  have 2: "\<forall>p \<in> set (added @ [(g, e)]).
             fst p \<noteq> HNone \<and> py_truthy (unhash (fst p)) \<and> \<not> dict_mem (fst p) d"
    using a(2) assms(2) m truthy_not_None by auto
  have 3: "distinct (map (key_norm \<circ> fst) d) \<longrightarrow> distinct (map (key_norm \<circ> fst) (d1 @ [(g, e)]))"
    using a(3) assms(3) by (auto simp: dict_mem_keys)
  show ?thesis unfolding extends_iff using 1 2 3 by blast
qed

lemma reference_loop_extends:
  assumes "for_each reference_step (publishers, refs) feeds = Inr (publishers', refs')"
    and "extends d publishers"
  shows "extends d publishers'"
  using assms
proof (induction feeds arbitrary: publishers refs)
  case Nil
  then show ?case by simp
next
  case (Cons x feeds)
  from Cons.prems(1) obtain p1 r1 where s:
    "reference_step (publishers, refs) x = Inr (p1, r1)"
    "for_each reference_step (p1, r1) feeds = Inr (publishers', refs')"
    by (auto split: sum.splits)
  have "extends d p1"
  proof -
    from reference_step_result [OF s(1)] show ?thesis
    proof
      assume "p1 = publishers \<and> r1 = refs"
      then show ?thesis using Cons.prems(2) by simp
    next
      assume "\<exists>g e r. py_truthy (unhash g) \<and> \<not> dict_mem g publishers
                \<and> p1 = publishers @ [(g, e)] \<and> r1 = dict_set refs g r"
      then obtain g e where "py_truthy (unhash g)" "\<not> dict_mem g publishers"
        "p1 = publishers @ [(g, e)]" by blast
      then show ?thesis using extends_step [OF Cons.prems(2)] by simp
    qed
  qed
  then show ?case using Cons.IH [OF s(2)] by simp
qed

lemma add_missing_loop_extends:
  assumes "for_each add_missing_step publishers elems = Inr publishers'"
    and "extends d publishers"
  shows "extends d publishers'"
  using assms
proof (induction elems arbitrary: publishers)
  case Nil
  then show ?case by simp
next
  case (Cons x elems)
  from Cons.prems(1) obtain p1 where s:
    "add_missing_step publishers x = Inr p1"
    "for_each add_missing_step p1 elems = Inr publishers'"
    by (auto split: sum.splits)
  have "extends d p1"
  proof -
    from add_missing_step_result [OF s(1)] show ?thesis
    proof
      assume "p1 = publishers"
      then show ?thesis using Cons.prems(2) by simp
    next
      assume "\<exists>e. py_truthy (unhash (fst x)) \<and> \<not> dict_mem (fst x) publishers
              \<and> p1 = publishers @ [(fst x, e)]"
      then obtain e where "py_truthy (unhash (fst x))" "\<not> dict_mem (fst x) publishers"
        "p1 = publishers @ [(fst x, e)]" by blast
      then show ?thesis using extends_step [OF Cons.prems(2)] by simp
    qed
  qed
  then show ?case using Cons.IH [OF s(2)] by simp
qed

lemma keys_ok_distinct_norm: "keys_ok d \<Longrightarrow> distinct (map (key_norm \<circ> fst) d)"
proof -
  assume k: "keys_ok d"
  then have "map (key_norm \<circ> fst) d = map fst d"
    by (intro none_or_str_keys) (simp add: keys_ok_iff)
  moreover have "distinct (map fst d)" using k by (simp add: keys_ok_iff)
  ultimately show ?thesis by (simp only:)
qed

lemma extends_lookup:
  assumes "extends d d'" and "dict_lookup d k = Some e"
  shows "dict_lookup d' k = Some e"
  using assms by (auto simp: extends_iff dict_lookup_append)

lemma extract_publishers_parts:
  assumes "extract_publishers data = Inr (final, refs)"
  obtains primary feeds where "primary_scan data = Inr primary" "feeds_of data = Inr feeds"
    "for_each primary_step [] feeds = Inr primary"
    "for_each reference_step (primary, []) feeds = Inr (final, refs)"
proof -
  from assms obtain primary where p: "primary_scan data = Inr primary"
    "bnd (feeds_of data) (for_each reference_step (primary, [])) = Inr (final, refs)"
    unfolding extract_publishers_def bnd_eq_Inr by blast
  from p(2) obtain feeds where f: "feeds_of data = Inr feeds"
    "for_each reference_step (primary, []) feeds = Inr (final, refs)"
    unfolding bnd_eq_Inr by blast
  have "for_each primary_step [] feeds = Inr primary"
    using p(1) f(1) by (simp add: primary_scan_def)
  then show ?thesis using that p(1) f by blast
qed

lemma extract_all_publishers_parts:
  assumes "extract_all_publishers set_iter data = Inr final"
  obtains primary feeds elems where "primary_scan_all data = Inr primary"
    "feeds_of data = Inr feeds"
    "for_each primary_step_all [] feeds = Inr primary"
    "for_each collect_step [] feeds = Inr elems"
    "for_each add_missing_step primary (set_iter elems) = Inr final"
proof -
  from assms obtain primary where p: "primary_scan_all data = Inr primary"
    "bnd (collect_references data) (\<lambda>u. for_each add_missing_step primary (set_iter u)) = Inr final"
    unfolding extract_all_publishers_def bnd_eq_Inr by blast
  from p(2) obtain elems where e: "collect_references data = Inr elems"
    "for_each add_missing_step primary (set_iter elems) = Inr final"
    unfolding bnd_eq_Inr by blast
  from e(1) obtain feeds where f: "feeds_of data = Inr feeds" "for_each collect_step [] feeds = Inr elems"
    unfolding collect_references_def bnd_eq_Inr by blast
  have "for_each primary_step_all [] feeds = Inr primary"
    using p(1) f(1) by (simp add: primary_scan_all_def)
  then show ?thesis using that p(1) f e(2) by blast
qed

lemma extends_expand:
  assumes "extends primary final" and "distinct (map (key_norm \<circ> fst) primary)"
  shows "\<exists>added. final = primary @ added
           \<and> (\<forall>item \<in> set added. fst item \<noteq> HNone \<and> py_truthy (unhash (fst item))
                 \<and> \<not> dict_mem (fst item) primary)
           \<and> distinct (map (key_norm \<circ> fst) final)
           \<and> (\<forall>k e. dict_lookup primary k = Some e \<longrightarrow> dict_lookup final k = Some e)"
proof -
  obtain added where a: "final = primary @ added"
    "\<forall>p \<in> set added. fst p \<noteq> HNone \<and> py_truthy (unhash (fst p)) \<and> \<not> dict_mem (fst p) primary"
    "distinct (map (key_norm \<circ> fst) final)"
    using assms unfolding extends_iff by blast
  have "\<forall>k e. dict_lookup primary k = Some e \<longrightarrow> dict_lookup final k = Some e"
    using extends_lookup [OF assms(1)] by blast
  then show ?thesis using a by blast
qed

lemma extract_publishers_extends:
  assumes "extract_publishers data = Inr (final, refs)"
  shows "\<exists>primary. primary_scan data = Inr primary \<and> extends primary final
           \<and> distinct (map (key_norm \<circ> fst) primary)"
proof -
  from assms obtain primary feeds where p: "primary_scan data = Inr primary"
    "for_each primary_step [] feeds = Inr primary"
    "for_each reference_step (primary, []) feeds = Inr (final, refs)"
    by (rule extract_publishers_parts)
  have "extends primary final"
    using p(3) extends_refl by (rule reference_loop_extends)
  moreover have "distinct (map (key_norm \<circ> fst) primary)"
    using keys_ok_primary_loop [OF p(2)] by (rule keys_ok_distinct_norm)
  ultimately show ?thesis using p(1) by blast
qed

lemma extract_all_publishers_extends:
  assumes "extract_all_publishers set_iter data = Inr final"
  shows "\<exists>primary. primary_scan_all data = Inr primary \<and> extends primary final
           \<and> distinct (map (key_norm \<circ> fst) primary)"
proof -
  from assms obtain primary feeds elems where p: "primary_scan_all data = Inr primary"
    "for_each primary_step_all [] feeds = Inr primary"
    "for_each add_missing_step primary (set_iter elems) = Inr final"
    by (rule extract_all_publishers_parts)
  have "extends primary final"
    using p(3) extends_refl by (rule add_missing_loop_extends)
  moreover have "distinct (map (key_norm \<circ> fst) primary)"
    using keys_ok_primary_loop_all [OF p(2)] by (rule keys_ok_distinct_norm)
  ultimately show ?thesis using p(1) by blast
qed

subsection \<open>The second loop of \<open>extract_publishers.py\<close>, record by record\<close>













subsection \<open>The second and third loop of \<open>final_publisher_summary.py\<close>, record by record\<close>















subsection \<open>Fields of a record of the expected shape\<close>














subsection \<open>\<open>extract_publishers.py\<close> on a document of the expected shape\<close>








subsection \<open>\<open>final_publisher_summary.py\<close> on a document of the expected shape\<close>








subsection \<open>The mappings and the report on a document of the expected shape\<close>










subsection \<open>An absent field is its default\<close>




section \<open>The claims\<close>

text \<open>
  Claim C2. A publisher record whose \<open>originalUrl\<close> contains \<open>wavlake.com/feed/artist/\<close>
  resolves, in both scripts, to the text after the last \<open>/\<close> of the URL, and the first
  loop stores its entry under that GUID; the scenario's record is stored under
  \<open>abc123\<close> with title \<open>Artist X\<close>.
\<close>

theorem wavlake_guid_is_last_path_segment:
  assumes "str_in ''wavlake.com/feed/artist/'' url"
    and "dict_get feed ''type'' PNone = PStr ''publisher''"
    and "dict_get feed ''originalUrl'' (PStr []) = PStr url"
    and "iteration_order set_iter"
  shows "\<exists>pre guid.
           url = pre @ CHR ''/'' # guid \<and> CHR ''/'' \<notin> set guid
         \<and> resolve_guid (PStr url) = Inr (HStr guid)
         \<and> resolve_guid_all (PStr url) = Inr (HStr guid)
         \<and> primary_step publishers (PDict feed) =
             Inr (dict_set publishers (HStr guid)
               (PDict [(''feedGuid'', PStr guid), (''feedUrl'', PStr url),
                       (''title'', dict_get feed ''title'' (PStr [])),
                       (''id'', dict_get feed ''id'' (PStr [])),
                       (''parsedData'', dict_get feed ''parsedData'' (PDict []))]))
         \<and> (\<forall>publishers'. primary_step_all publishers (PDict feed) = Inr publishers' \<longrightarrow>
               (\<exists>publisher_name artist description.
                  dict_lookup publishers' (HStr guid) =
                    Some (summary_entry (PStr guid) (PStr url)
                            (dict_get feed ''title'' (PStr [])) (dict_get feed ''id'' (PStr []))
                            publisher_name artist description
                            (dict_get feed ''status'' (PStr []))
                            (dict_get feed ''priority'' (PStr [])))))
         \<and> extract_publishers (PDict [(''feeds'', PList [wavlake_example])]) =
             Inr ([(HStr ''abc123'',
                    PDict [(''feedGuid'', PStr ''abc123''),
                           (''feedUrl'', PStr ''https://wavlake.com/feed/artist/abc123''),
                           (''title'', PStr ''Artist X''), (''id'', PStr []),
                           (''parsedData'', PDict [])])], [])
         \<and> extract_all_publishers set_iter (PDict [(''feeds'', PList [wavlake_example])]) =
             Inr [(HStr ''abc123'',
                   summary_entry (PStr ''abc123'') (PStr ''https://wavlake.com/feed/artist/abc123'')
                     (PStr ''Artist X'') (PStr []) (PStr []) (PStr []) (PStr []) (PStr [])
                     (PStr []))]"
proof -
  define guid where "guid = last (split_on CHR ''/'' url)"
  have "CHR ''/'' \<in> set url"
    using assms(1) by (rule str_in_elem) simp
  then obtain pre where pre: "url = pre @ CHR ''/'' # guid"
    unfolding guid_def using last_split_on_suffix by blast
  have nosep: "CHR ''/'' \<notin> set guid"
    unfolding guid_def by (rule last_split_on_no_sep)
  have r1: "resolve_guid (PStr url) = Inr (HStr guid)"
    using assms(1) by (simp add: resolve_guid_str guid_def)
  have r2: "resolve_guid_all (PStr url) = Inr (HStr guid)"
    using assms(1) by (simp add: resolve_guid_all_str guid_def)
  have s1: "primary_step publishers (PDict feed) =
             Inr (dict_set publishers (HStr guid)
               (PDict [(''feedGuid'', PStr guid), (''feedUrl'', PStr url),
                       (''title'', dict_get feed ''title'' (PStr [])),
                       (''id'', dict_get feed ''id'' (PStr [])),
                       (''parsedData'', dict_get feed ''parsedData'' (PDict []))]))"
    using assms(2,3) r1 by simp
  have s2: "\<exists>publisher_name artist description.
                  dict_lookup publishers' (HStr guid) =
                    Some (summary_entry (PStr guid) (PStr url)
                            (dict_get feed ''title'' (PStr [])) (dict_get feed ''id'' (PStr []))
                            publisher_name artist description
                            (dict_get feed ''status'' (PStr []))
                            (dict_get feed ''priority'' (PStr [])))"
    if "primary_step_all publishers (PDict feed) = Inr publishers'" for publishers'
    using primary_step_all_stores [of feed "HStr guid" publishers publishers'] assms(2,3) r2 that
    by simp
  have e1: "extract_publishers (PDict [(''feeds'', PList [wavlake_example])]) =
             Inr ([(HStr ''abc123'',
                    PDict [(''feedGuid'', PStr ''abc123''),
                           (''feedUrl'', PStr ''https://wavlake.com/feed/artist/abc123''),
                           (''title'', PStr ''Artist X''), (''id'', PStr []),
                           (''parsedData'', PDict [])])], [])"
    by (simp add: extract_publishers_def primary_scan_def feeds_of_def wavlake_example_def
        dict_get_def resolve_guid_def index_last_def)
  have e2: "extract_all_publishers set_iter (PDict [(''feeds'', PList [wavlake_example])]) =
             Inr [(HStr ''abc123'',
                   summary_entry (PStr ''abc123'') (PStr ''https://wavlake.com/feed/artist/abc123'')
                     (PStr ''Artist X'') (PStr []) (PStr []) (PStr []) (PStr []) (PStr [])
                     (PStr []))]"
    using iteration_order_Nil [OF assms(4)]
    by (simp add: extract_all_publishers_def primary_scan_all_def collect_references_def
        feeds_of_def wavlake_example_def dict_get_def resolve_guid_all_def index_last_def
        summary_entry_def)
  show ?thesis
    using pre nosep r1 r2 s1 s2 e1 e2 by blast
qed

theorem wavlake_guid_is_last_path_segment_witness:
  "str_in ''wavlake.com/feed/artist/'' ''https://wavlake.com/feed/artist/abc123''
   \<and> iteration_order (id :: (hashable \<times> hashable) list \<Rightarrow> (hashable \<times> hashable) list)
   \<and> (\<exists>pre. ''https://wavlake.com/feed/artist/abc123'' = pre @ CHR ''/'' # ''abc123'')
   \<and> primary_step [] wavlake_example =
       Inr [(HStr ''abc123'',
             PDict [(''feedGuid'', PStr ''abc123''),
                    (''feedUrl'', PStr ''https://wavlake.com/feed/artist/abc123''),
                    (''title'', PStr ''Artist X''), (''id'', PStr []),
                    (''parsedData'', PDict [])])]"
proof -
  let ?feed = "[(''type'', PStr ''publisher''),
                (''originalUrl'', PStr ''https://wavlake.com/feed/artist/abc123''),
                (''title'', PStr ''Artist X'')]"
  have h1: "str_in ''wavlake.com/feed/artist/'' ''https://wavlake.com/feed/artist/abc123''"
    by simp
  have h2: "dict_get ?feed ''type'' PNone = PStr ''publisher''"
    by (simp add: dict_get_def)
  have h3: "dict_get ?feed ''originalUrl'' (PStr []) = PStr ''https://wavlake.com/feed/artist/abc123''"
    by (simp add: dict_get_def)
  obtain pre guid where g:
    "''https://wavlake.com/feed/artist/abc123'' = pre @ CHR ''/'' # guid"
    "resolve_guid (PStr ''https://wavlake.com/feed/artist/abc123'') = Inr (HStr guid)"
    "primary_step [] (PDict ?feed) =
       Inr (dict_set [] (HStr guid)
         (PDict [(''feedGuid'', PStr guid),
                 (''feedUrl'', PStr ''https://wavlake.com/feed/artist/abc123''),
                 (''title'', dict_get ?feed ''title'' (PStr [])),
                 (''id'', dict_get ?feed ''id'' (PStr [])),
                 (''parsedData'', dict_get ?feed ''parsedData'' (PDict []))]))"
    using wavlake_guid_is_last_path_segment [OF h1 h2 h3 iteration_order_id, of "[]"] by blast
  have "resolve_guid (PStr ''https://wavlake.com/feed/artist/abc123'') = Inr (HStr ''abc123'')"
    by (simp add: resolve_guid_def index_last_def)
  then have "guid = ''abc123''" using g(2) by simp
  then show ?thesis
    using h1 g(1,3) iteration_order_id by (auto simp: wavlake_example_def dict_get_def)
qed


lemma replace_remove: "replace c [] s = filter (\<lambda>x. x \<noteq> c) s"
  by (induction s) (auto simp: replace_def)

lemma replace_single: "replace c [d] s = map (\<lambda>x. if x = c then d else x) s"
  by (induction s) (auto simp: replace_def)

lemma url_slug_spec: "url_slug name = spec_slug name"
  by (simp add: url_slug_def spec_slug_def lower_def replace_remove replace_single conj_commute conj_left_commute)

lemma mapping_step_slug:
  assumes "mapping_step mappings (guid, info) = Inr mappings'" and "\<not> skipped guid"
  shows "\<exists>name url status.
           display_name_of guid info = Inr (PStr name)
         \<and> dict_lookup mappings' guid =
             Some (PDict [(''guid'', unhash guid), (''displayName'', PStr name),
                          (''urlSlug'', PStr (url_slug name)),
                          (''feedUrl'', url), (''status'', status)])"
proof -
  obtain dn where dn: "display_name_of guid info = Inr dn"
    using assms by (auto simp: mapping_step_def bnd_eq_Inr)
  obtain slug where slug: "py_url_slug dn = Inr slug"
    using assms dn by (auto simp: mapping_step_def bnd_eq_Inr)
  then obtain name where name: "dn = PStr name" "slug = url_slug name"
    by (cases dn) auto
  show ?thesis
    using assms dn slug name
    by (auto simp: mapping_step_def bnd_eq_Inr dict_lookup_dict_set)
qed

text \<open>
  Claim C6. The slug is the display name lowercased, with every space turned into a
  hyphen and every parenthesis and period removed; \<open>BitPunk.fm\<close> gives \<open>bitpunkfm\<close>; and
  the slug a mapping stores is that function of the display name it stores.
\<close>

theorem slug_is_lower_hyphen_strip:
  "url_slug name = spec_slug name
   \<and> url_slug ''BitPunk.fm'' = ''bitpunkfm''
   \<and> (\<forall>mappings mappings' guid info.
         mapping_step mappings (guid, info) = Inr mappings' \<and> \<not> skipped guid \<longrightarrow>
         (\<exists>display_name url status.
            display_name_of guid info = Inr (PStr display_name)
          \<and> dict_lookup mappings' guid =
              Some (PDict [(''guid'', unhash guid), (''displayName'', PStr display_name),
                           (''urlSlug'', PStr (spec_slug display_name)),
                           (''feedUrl'', url), (''status'', status)])))"
proof -
  have ex: "url_slug ''BitPunk.fm'' = ''bitpunkfm''"
    by code_simp
  show ?thesis
    using url_slug_spec ex mapping_step_slug by (metis (no_types, lifting))
qed

theorem slug_is_lower_hyphen_strip_witness:
  "mapping_step [] (HStr ''g1'',
      summary_entry (PStr ''g1'') (PStr ''https://zine.bitpunk.fm/x'') (PStr [])
        (PStr []) (PStr []) (PStr []) (PStr []) (PStr ''active'') (PStr [])) =
     Inr [(HStr ''g1'',
           PDict [(''guid'', PStr ''g1''), (''displayName'', PStr ''BitPunk.fm''),
                  (''urlSlug'', PStr ''bitpunkfm''),
                  (''feedUrl'', PStr ''https://zine.bitpunk.fm/x''),
                  (''status'', PStr ''active'')])]
   \<and> \<not> skipped (HStr ''g1'')
   \<and> spec_slug ''BitPunk.fm'' = ''bitpunkfm''"
proof -
  let ?info = "summary_entry (PStr ''g1'') (PStr ''https://zine.bitpunk.fm/x'') (PStr [])
        (PStr []) (PStr []) (PStr []) (PStr []) (PStr ''active'') (PStr [])"
  have d: "display_name_of (HStr ''g1'') ?info = Inr (PStr ''BitPunk.fm'')"
    by (simp add: display_name_of_def summary_entry_def)
  have sk: "\<not> skipped (HStr ''g1'')"
    by (simp add: skipped_def)
  have eqs: "url_slug ''BitPunk.fm'' = spec_slug ''BitPunk.fm''"
    "url_slug ''BitPunk.fm'' = ''bitpunkfm''"
    using slug_is_lower_hyphen_strip [of "''BitPunk.fm''"] by blast+
  have sl: "spec_slug ''BitPunk.fm'' = ''bitpunkfm''"
    using eqs by simp
  have "mapping_step [] (HStr ''g1'', ?info) =
     Inr [(HStr ''g1'',
           PDict [(''guid'', PStr ''g1''), (''displayName'', PStr ''BitPunk.fm''),
                  (''urlSlug'', PStr (url_slug ''BitPunk.fm'')),
                  (''feedUrl'', PStr ''https://zine.bitpunk.fm/x''),
                  (''status'', PStr ''active'')])]"
    using d sk by (simp add: mapping_step_def summary_entry_def)
  then show ?thesis
    using sk sl eqs by simp
qed

text \<open>
  Claim C3, as stated, fails: the Wavlake rule is tried first, so a URL that contains
  both paths gets its last path segment, not the fixed GUID.
\<close>

theorem bitpunk_guid_counterexample:
  "str_in ''zine.bitpunk.fm/feeds/publisher.xml''
     ''https://wavlake.com/feed/artist/zine.bitpunk.fm/feeds/publisher.xml''
   \<and> resolve_guid (PStr ''https://wavlake.com/feed/artist/zine.bitpunk.fm/feeds/publisher.xml'')
       = Inr (HStr ''publisher.xml'')
   \<and> resolve_guid_all (PStr ''https://wavlake.com/feed/artist/zine.bitpunk.fm/feeds/publisher.xml'')
       = Inr (HStr ''publisher.xml'')
   \<and> HStr ''publisher.xml'' \<noteq> HStr ''5883e6be-4e0c-11f0-9524-00155dc57d8e''"
  by (simp add: resolve_guid_def resolve_guid_all_def index_last_def)

text \<open>
  Claim C3, amended. A publisher record whose \<open>originalUrl\<close> contains
  \<open>zine.bitpunk.fm/feeds/publisher.xml\<close> and does not contain \<open>wavlake.com/feed/artist/\<close>
  resolves to the fixed GUID in both scripts, whatever its other fields are, and its
  entry is stored under that GUID.
\<close>

theorem bitpunk_guid_is_fixed:
  assumes "str_in ''zine.bitpunk.fm/feeds/publisher.xml'' url"
    and "\<not> str_in ''wavlake.com/feed/artist/'' url"
    and "dict_get feed ''type'' PNone = PStr ''publisher''"
    and "dict_get feed ''originalUrl'' (PStr []) = PStr url"
  shows "resolve_guid (PStr url) = Inr (HStr ''5883e6be-4e0c-11f0-9524-00155dc57d8e'')
       \<and> resolve_guid_all (PStr url) = Inr (HStr ''5883e6be-4e0c-11f0-9524-00155dc57d8e'')
       \<and> primary_step publishers (PDict feed) =
           Inr (dict_set publishers (HStr ''5883e6be-4e0c-11f0-9524-00155dc57d8e'')
             (PDict [(''feedGuid'', PStr ''5883e6be-4e0c-11f0-9524-00155dc57d8e''),
                     (''feedUrl'', PStr url),
                     (''title'', dict_get feed ''title'' (PStr [])),
                     (''id'', dict_get feed ''id'' (PStr [])),
                     (''parsedData'', dict_get feed ''parsedData'' (PDict []))]))
       \<and> (\<forall>publishers'. primary_step_all publishers (PDict feed) = Inr publishers' \<longrightarrow>
             (\<exists>publisher_name artist description.
                dict_lookup publishers' (HStr ''5883e6be-4e0c-11f0-9524-00155dc57d8e'') =
                  Some (summary_entry (PStr ''5883e6be-4e0c-11f0-9524-00155dc57d8e'') (PStr url)
                          (dict_get feed ''title'' (PStr [])) (dict_get feed ''id'' (PStr []))
                          publisher_name artist description
                          (dict_get feed ''status'' (PStr []))
                          (dict_get feed ''priority'' (PStr [])))))"
proof -
  let ?g = "HStr ''5883e6be-4e0c-11f0-9524-00155dc57d8e''"
  have r1: "resolve_guid (PStr url) = Inr ?g"
    using assms(1,2) by (simp add: resolve_guid_str)
  have r2: "resolve_guid_all (PStr url) = Inr ?g"
    using assms(1,2) by (simp add: resolve_guid_all_str)
  have s1: "primary_step publishers (PDict feed) =
           Inr (dict_set publishers ?g
             (PDict [(''feedGuid'', unhash ?g),
                     (''feedUrl'', PStr url),
                     (''title'', dict_get feed ''title'' (PStr [])),
                     (''id'', dict_get feed ''id'' (PStr [])),
                     (''parsedData'', dict_get feed ''parsedData'' (PDict []))]))"
    using assms(3,4) r1 by simp
  have s2: "\<exists>publisher_name artist description.
                dict_lookup publishers' ?g =
                  Some (summary_entry (unhash ?g) (PStr url)
                          (dict_get feed ''title'' (PStr [])) (dict_get feed ''id'' (PStr []))
                          publisher_name artist description
                          (dict_get feed ''status'' (PStr []))
                          (dict_get feed ''priority'' (PStr [])))"
    if "primary_step_all publishers (PDict feed) = Inr publishers'" for publishers'
    using primary_step_all_stores [of feed ?g publishers publishers'] assms(3,4) r2 that
    by simp
  show ?thesis
    using r1 r2 s1 s2 by simp
qed

theorem bitpunk_guid_is_fixed_witness:
  "str_in ''zine.bitpunk.fm/feeds/publisher.xml'' ''https://zine.bitpunk.fm/feeds/publisher.xml''
   \<and> \<not> str_in ''wavlake.com/feed/artist/'' ''https://zine.bitpunk.fm/feeds/publisher.xml''
   \<and> primary_step []
        (PDict [(''type'', PStr ''publisher''), (''title'', PStr ''Zine''),
                (''originalUrl'', PStr ''https://zine.bitpunk.fm/feeds/publisher.xml'')]) =
       Inr [(HStr ''5883e6be-4e0c-11f0-9524-00155dc57d8e'',
             PDict [(''feedGuid'', PStr ''5883e6be-4e0c-11f0-9524-00155dc57d8e''),
                    (''feedUrl'', PStr ''https://zine.bitpunk.fm/feeds/publisher.xml''),
                    (''title'', PStr ''Zine''), (''id'', PStr []),
                    (''parsedData'', PDict [])])]"
proof -
  let ?url = "''https://zine.bitpunk.fm/feeds/publisher.xml''"
  let ?feed = "[(''type'', PStr ''publisher''), (''title'', PStr ''Zine''),
                (''originalUrl'', PStr ?url)]"
  have h1: "str_in ''zine.bitpunk.fm/feeds/publisher.xml'' ?url" by simp
  have h2: "\<not> str_in ''wavlake.com/feed/artist/'' ?url" by simp
  have h3: "dict_get ?feed ''type'' PNone = PStr ''publisher''" by (simp add: dict_get_def)
  have h4: "dict_get ?feed ''originalUrl'' (PStr []) = PStr ?url" by (simp add: dict_get_def)
  show ?thesis
    using bitpunk_guid_is_fixed [OF h1 h2 h3 h4, of "[]"] h1 h2
    by (simp add: dict_get_def)
qed



text \<open>
  Claim C10. In the first loop of either script a publisher record is stored under the
  GUID its URL resolves to, which is \<open>None\<close> exactly when no rule matches the URL; after
  the loop the map holds, for that GUID, one item only, and it is the entry of the last
  publisher record that resolved to it. So of the records no rule matches, only the last
  is kept, and repeated GUIDs are treated the same way.
\<close>

theorem primary_scan_last_write_wins:
  assumes "feeds_of data = Inr (pre @ PDict f # post)"
    and "dict_get f ''type'' PNone = PStr ''publisher''"
    and "dict_get f ''originalUrl'' (PStr []) = PStr url"
  shows "(resolve_guid (PStr url) = Inr HNone \<longleftrightarrow>
            \<not> str_in ''wavlake.com/feed/artist/'' url
          \<and> \<not> str_in ''zine.bitpunk.fm/feeds/publisher.xml'' url)
       \<and> (resolve_guid_all (PStr url) = Inr HNone \<longleftrightarrow>
            \<not> str_in ''wavlake.com/feed/artist/'' url
          \<and> \<not> str_in ''zine.bitpunk.fm/feeds/publisher.xml'' url
          \<and> \<not> str_in ''re.podtards.com'' url)
       \<and> (\<forall>publishers g.
             primary_scan data = Inr publishers \<and> resolve_guid (PStr url) = Inr g
           \<and> (\<forall>f'. PDict f' \<in> set post \<and> dict_get f' ''type'' PNone = PStr ''publisher'' \<longrightarrow>
                  resolve_guid (dict_get f' ''originalUrl'' (PStr [])) \<noteq> Inr g)
           \<longrightarrow> filter (\<lambda>item. fst item = g) publishers =
                 [(g, publisher_entry (unhash g) (PStr url)
                        (dict_get f ''title'' (PStr [])) (dict_get f ''id'' (PStr []))
                        (dict_get f ''parsedData'' (PDict [])))])
       \<and> (\<forall>publishers g.
             primary_scan_all data = Inr publishers \<and> resolve_guid_all (PStr url) = Inr g
           \<and> (\<forall>f'. PDict f' \<in> set post \<and> dict_get f' ''type'' PNone = PStr ''publisher'' \<longrightarrow>
                  resolve_guid_all (dict_get f' ''originalUrl'' (PStr [])) \<noteq> Inr g)
           \<longrightarrow> (\<exists>info.
                  py_get (dict_get f ''parsedData'' (PDict [])) ''publisherInfo'' (PDict []) =
                    Inr (PDict info)
                \<and> filter (\<lambda>item. fst item = g) publishers =
                  [(g, summary_entry (unhash g) (PStr url)
                         (dict_get f ''title'' (PStr [])) (dict_get f ''id'' (PStr []))
                         (dict_get info ''title'' (PStr [])) (dict_get info ''artist'' (PStr []))
                         (dict_get info ''description'' (PStr []))
                         (dict_get f ''status'' (PStr [])) (dict_get f ''priority'' (PStr [])))]))"
proof -
  have a: "resolve_guid (PStr url) = Inr HNone \<longleftrightarrow>
            \<not> str_in ''wavlake.com/feed/artist/'' url
          \<and> \<not> str_in ''zine.bitpunk.fm/feeds/publisher.xml'' url"
    by (simp add: resolve_guid_str)
  have b: "resolve_guid_all (PStr url) = Inr HNone \<longleftrightarrow>
            \<not> str_in ''wavlake.com/feed/artist/'' url
          \<and> \<not> str_in ''zine.bitpunk.fm/feeds/publisher.xml'' url
          \<and> \<not> str_in ''re.podtards.com'' url"
    by (simp add: resolve_guid_all_str)
  have c: "filter (\<lambda>item. fst item = g) publishers =
                 [(g, publisher_entry (unhash g) (PStr url)
                        (dict_get f ''title'' (PStr [])) (dict_get f ''id'' (PStr []))
                        (dict_get f ''parsedData'' (PDict [])))]"
    if "primary_scan data = Inr publishers" "resolve_guid (PStr url) = Inr g"
      "\<forall>f'. PDict f' \<in> set post \<and> dict_get f' ''type'' PNone = PStr ''publisher'' \<longrightarrow>
                  resolve_guid (dict_get f' ''originalUrl'' (PStr [])) \<noteq> Inr g"
    for publishers g
  proof -
    have "for_each primary_step [] (pre @ PDict f # post) = Inr publishers"
      using that(1) primary_scan_unfold [OF assms(1)] by simp
    then show ?thesis
      using primary_last_write [of pre f post publishers g] assms(2,3) that(2,3) by simp
  qed
  have d: "\<exists>info.
                  py_get (dict_get f ''parsedData'' (PDict [])) ''publisherInfo'' (PDict []) =
                    Inr (PDict info)
                \<and> filter (\<lambda>item. fst item = g) publishers =
                  [(g, summary_entry (unhash g) (PStr url)
                         (dict_get f ''title'' (PStr [])) (dict_get f ''id'' (PStr []))
                         (dict_get info ''title'' (PStr [])) (dict_get info ''artist'' (PStr []))
                         (dict_get info ''description'' (PStr []))
                         (dict_get f ''status'' (PStr [])) (dict_get f ''priority'' (PStr [])))]"
    if "primary_scan_all data = Inr publishers" "resolve_guid_all (PStr url) = Inr g"
      "\<forall>f'. PDict f' \<in> set post \<and> dict_get f' ''type'' PNone = PStr ''publisher'' \<longrightarrow>
                  resolve_guid_all (dict_get f' ''originalUrl'' (PStr [])) \<noteq> Inr g"
    for publishers g
  proof -
    have "for_each primary_step_all [] (pre @ PDict f # post) = Inr publishers"
      using that(1) primary_scan_all_unfold [OF assms(1)] by simp
    then show ?thesis
      using primary_all_last_write [of pre f post publishers g] assms(2,3) that(2,3) by simp
  qed
  show ?thesis
  proof (intro conjI allI impI)
    fix publishers g
    assume h: "primary_scan data = Inr publishers \<and> resolve_guid (PStr url) = Inr g
           \<and> (\<forall>f'. PDict f' \<in> set post \<and> dict_get f' ''type'' PNone = PStr ''publisher'' \<longrightarrow>
                  resolve_guid (dict_get f' ''originalUrl'' (PStr [])) \<noteq> Inr g)"
    show "filter (\<lambda>item. fst item = g) publishers =
                 [(g, publisher_entry (unhash g) (PStr url)
                        (dict_get f ''title'' (PStr [])) (dict_get f ''id'' (PStr []))
                        (dict_get f ''parsedData'' (PDict [])))]"
      by (rule c) (use h in simp_all)
  next
    fix publishers g
    assume h: "primary_scan_all data = Inr publishers \<and> resolve_guid_all (PStr url) = Inr g
           \<and> (\<forall>f'. PDict f' \<in> set post \<and> dict_get f' ''type'' PNone = PStr ''publisher'' \<longrightarrow>
                  resolve_guid_all (dict_get f' ''originalUrl'' (PStr [])) \<noteq> Inr g)"
    show "\<exists>info.
                  py_get (dict_get f ''parsedData'' (PDict [])) ''publisherInfo'' (PDict []) =
                    Inr (PDict info)
                \<and> filter (\<lambda>item. fst item = g) publishers =
                  [(g, summary_entry (unhash g) (PStr url)
                         (dict_get f ''title'' (PStr [])) (dict_get f ''id'' (PStr []))
                         (dict_get info ''title'' (PStr [])) (dict_get info ''artist'' (PStr []))
                         (dict_get info ''description'' (PStr []))
                         (dict_get f ''status'' (PStr [])) (dict_get f ''priority'' (PStr [])))]"
      by (rule d) (use h in simp_all)
  qed (use a b in simp_all)
qed

theorem primary_scan_last_write_wins_witness:
  "feeds_of (PDict [(''feeds'', PList
       [PDict [(''type'', PStr ''publisher''), (''originalUrl'', PStr ''https://example.com/a''),
               (''title'', PStr ''First'')],
        PDict [(''type'', PStr ''publisher''), (''originalUrl'', PStr ''https://example.org/b''),
               (''title'', PStr ''Second'')]])]) =
     Inr ([PDict [(''type'', PStr ''publisher''), (''originalUrl'', PStr ''https://example.com/a''),
                  (''title'', PStr ''First'')]]
          @ PDict [(''type'', PStr ''publisher''), (''originalUrl'', PStr ''https://example.org/b''),
                   (''title'', PStr ''Second'')] # [])
   \<and> resolve_guid (PStr ''https://example.org/b'') = Inr HNone
   \<and> primary_scan (PDict [(''feeds'', PList
       [PDict [(''type'', PStr ''publisher''), (''originalUrl'', PStr ''https://example.com/a''),
               (''title'', PStr ''First'')],
        PDict [(''type'', PStr ''publisher''), (''originalUrl'', PStr ''https://example.org/b''),
               (''title'', PStr ''Second'')]])]) =
     Inr [(HNone, publisher_entry PNone (PStr ''https://example.org/b'') (PStr ''Second'')
                    (PStr []) (PDict []))]"
proof -
  let ?a = "PDict [(''type'', PStr ''publisher''), (''originalUrl'', PStr ''https://example.com/a''),
               (''title'', PStr ''First'')]"
  let ?f = "[(''type'', PStr ''publisher''), (''originalUrl'', PStr ''https://example.org/b''),
               (''title'', PStr ''Second'')]"
  let ?data = "PDict [(''feeds'', PList [?a, PDict ?f])]"
  let ?e = "publisher_entry PNone (PStr ''https://example.org/b'') (PStr ''Second'')
                    (PStr []) (PDict [])"
  have h1: "feeds_of ?data = Inr ([?a] @ PDict ?f # [])"
    by (simp add: feeds_of_def dict_get_def)
  have h2: "dict_get ?f ''type'' PNone = PStr ''publisher''"
    by (simp add: dict_get_def)
  have h3: "dict_get ?f ''originalUrl'' (PStr []) = PStr ''https://example.org/b''"
    by (simp add: dict_get_def)
  have r: "resolve_guid (PStr ''https://example.org/b'') = Inr HNone"
    by (simp add: resolve_guid_str)
  obtain publishers where p: "primary_scan ?data = Inr publishers"
    "publishers = [(HNone, ?e)]"
    by (simp add: primary_scan_def feeds_of_def dict_get_def resolve_guid_str
        publisher_entry_def)
  have "filter (\<lambda>item. fst item = HNone) publishers =
          [(HNone, publisher_entry (unhash HNone) (PStr ''https://example.org/b'')
                     (dict_get ?f ''title'' (PStr [])) (dict_get ?f ''id'' (PStr []))
                     (dict_get ?f ''parsedData'' (PDict [])))]"
    using primary_scan_last_write_wins [OF h1 h2 h3] p(1) r by simp
  then show ?thesis
    using h1 r p by simp
qed

text \<open>
  Claim C1. Whenever either script returns its map, the map is the map of the first loop
  followed by the synthesized entries; each of those is under a key that is not \<open>None\<close>
  (and is truthy) and that the first loop's map did not have; so what the first loop
  stored under a key is still what the final map has under it, and no key occurs twice.
  For the second script this holds in whatever order the set is iterated.
\<close>

theorem reference_scan_only_fills_gaps:
  "(\<forall>final refs. extract_publishers data = Inr (final, refs) \<longrightarrow>
      (\<exists>primary added.
          primary_scan data = Inr primary \<and> final = primary @ added
        \<and> (\<forall>item \<in> set added. fst item \<noteq> HNone \<and> py_truthy (unhash (fst item))
              \<and> \<not> dict_mem (fst item) primary)
        \<and> distinct (map (key_norm \<circ> fst) final)
        \<and> (\<forall>k e. dict_lookup primary k = Some e \<longrightarrow> dict_lookup final k = Some e)))
   \<and> (\<forall>final. extract_all_publishers set_iter data = Inr final \<longrightarrow>
      (\<exists>primary added.
          primary_scan_all data = Inr primary \<and> final = primary @ added
        \<and> (\<forall>item \<in> set added. fst item \<noteq> HNone \<and> py_truthy (unhash (fst item))
              \<and> \<not> dict_mem (fst item) primary)
        \<and> distinct (map (key_norm \<circ> fst) final)
        \<and> (\<forall>k e. dict_lookup primary k = Some e \<longrightarrow> dict_lookup final k = Some e)))"
proof (intro conjI allI impI)
  fix final refs
  assume "extract_publishers data = Inr (final, refs)"
  then obtain primary where p: "primary_scan data = Inr primary" "extends primary final"
    "distinct (map (key_norm \<circ> fst) primary)"
    using extract_publishers_extends by blast
  show "\<exists>primary added.
          primary_scan data = Inr primary \<and> final = primary @ added
        \<and> (\<forall>item \<in> set added. fst item \<noteq> HNone \<and> py_truthy (unhash (fst item))
              \<and> \<not> dict_mem (fst item) primary)
        \<and> distinct (map (key_norm \<circ> fst) final)
        \<and> (\<forall>k e. dict_lookup primary k = Some e \<longrightarrow> dict_lookup final k = Some e)"
    using extends_expand [OF p(2,3)] p(1) by blast
next
  fix final
  assume "extract_all_publishers set_iter data = Inr final"
  then obtain primary where p: "primary_scan_all data = Inr primary" "extends primary final"
    "distinct (map (key_norm \<circ> fst) primary)"
    using extract_all_publishers_extends by blast
  show "\<exists>primary added.
          primary_scan_all data = Inr primary \<and> final = primary @ added
        \<and> (\<forall>item \<in> set added. fst item \<noteq> HNone \<and> py_truthy (unhash (fst item))
              \<and> \<not> dict_mem (fst item) primary)
        \<and> distinct (map (key_norm \<circ> fst) final)
        \<and> (\<forall>k e. dict_lookup primary k = Some e \<longrightarrow> dict_lookup final k = Some e)"
    using extends_expand [OF p(2,3)] p(1) by blast
qed

theorem reference_scan_only_fills_gaps_witness:
  "extract_publishers reference_example =
     Inr ([(HStr ''abc123'',
            publisher_entry (PStr ''abc123'') (PStr ''https://wavlake.com/feed/artist/abc123'')
              (PStr ''Artist X'') (PStr []) (PDict [])),
           (HStr ''xyz'',
            publisher_entry (PStr ''xyz'') (PStr ''u'') (PStr ''Unknown Publisher (Band Y)'')
              (PStr ''publisher-xyz'') (PDict []))],
          [(HStr ''xyz'', PDict [(''referenced_in'', PStr ''Album 2''),
                                 (''artist_context'', PStr ''Band Y'')])])
   \<and> primary_scan reference_example =
     Inr [(HStr ''abc123'',
           publisher_entry (PStr ''abc123'') (PStr ''https://wavlake.com/feed/artist/abc123'')
             (PStr ''Artist X'') (PStr []) (PDict []))]
   \<and> (\<exists>final refs. extract_publishers reference_example = Inr (final, refs)
        \<and> dict_lookup final (HStr ''abc123'') =
            Some (publisher_entry (PStr ''abc123'') (PStr ''https://wavlake.com/feed/artist/abc123'')
                    (PStr ''Artist X'') (PStr []) (PDict []))
        \<and> distinct (map (key_norm \<circ> fst) final))"
proof -
  let ?a = "publisher_entry (PStr ''abc123'') (PStr ''https://wavlake.com/feed/artist/abc123'')
              (PStr ''Artist X'') (PStr []) (PDict [])"
  let ?x = "publisher_entry (PStr ''xyz'') (PStr ''u'') (PStr ''Unknown Publisher (Band Y)'')
              (PStr ''publisher-xyz'') (PDict [])"
  let ?F = "[(HStr ''abc123'', ?a), (HStr ''xyz'', ?x)]"
  let ?R = "[(HStr ''xyz'', PDict [(''referenced_in'', PStr ''Album 2''),
                                 (''artist_context'', PStr ''Band Y'')])]"
  have p: "primary_scan reference_example = Inr [(HStr ''abc123'', ?a)]"
    by (simp add: primary_scan_def feeds_of_def reference_example_def wavlake_example_def
        dict_get_def resolve_guid_str publisher_entry_def)
  have e: "extract_publishers reference_example = Inr (?F, ?R)"
    unfolding extract_publishers_def p
    by (simp add: feeds_of_def reference_example_def wavlake_example_def dict_get_def
        publisher_entry_def dict_mem_def unknown_title_def)
  obtain primary added where g: "primary_scan reference_example = Inr primary"
    "distinct (map (key_norm \<circ> fst) ?F)"
    "\<forall>k e. dict_lookup primary k = Some e \<longrightarrow> dict_lookup ?F k = Some e"
    using reference_scan_only_fills_gaps [of reference_example] e by blast
  have "primary = [(HStr ''abc123'', ?a)]" using g(1) p by simp
  then have "dict_lookup ?F (HStr ''abc123'') = Some ?a" using g(3) by simp
  then show ?thesis using p e g(2) by blast
qed




text \<open>
  Claim C9 fails for \<open>final_publisher_summary.py\<close>. The third loop iterates a set of
  tuples of strs, whose order Python does not fix from one run to the next; on a
  document that refers to two publishers without records, the two orders give two
  different reports (the sort by title is stable and both titles are
  \<open>Unknown Publisher\<close>, so the blocks come out in the order of the set).
\<close>

theorem report_depends_on_set_order:
  "iteration_order (id :: (hashable \<times> hashable) list \<Rightarrow> (hashable \<times> hashable) list)
   \<and> iteration_order (rev :: (hashable \<times> hashable) list \<Rightarrow> (hashable \<times> hashable) list)
   \<and> collect_references two_references =
       Inr [(HStr ''g1'', HStr ''u1''), (HStr ''g2'', HStr ''u2'')]
   \<and> final_publisher_summary_main id two_references =
       Inr [''=== ALL UNIQUE PUBLISHERS ==='' @ [CHR 0x0A],
          ''Feed GUID: g1'', ''Feed URL: u1'', ''Title: Unknown Publisher'',
          ''Publisher Name: '', ''Artist: '', ''Description: '', ''Status: referenced'',
          ''Priority: unknown'', replicate 60 CHR ''-'',
          ''Feed GUID: g2'', ''Feed URL: u2'', ''Title: Unknown Publisher'',
          ''Publisher Name: '', ''Artist: '', ''Description: '', ''Status: referenced'',
          ''Priority: unknown'', replicate 60 CHR ''-'',
          CHR 0x0A # ''Total unique publishers: 2'',
          CHR 0x0A # ''=== HUMAN-READABLE URL MAPPINGS ==='' @ [CHR 0x0A],
          ''GUID: g1'', ''Display Name: Publisher g1'', ''URL Slug: publisher-g1'',
          ''Feed URL: u1'', ''Status: referenced'', replicate 40 CHR ''-'',
          ''GUID: g2'', ''Display Name: Publisher g2'', ''URL Slug: publisher-g2'',
          ''Feed URL: u2'', ''Status: referenced'', replicate 40 CHR ''-'']
   \<and> final_publisher_summary_main rev two_references =
       Inr [''=== ALL UNIQUE PUBLISHERS ==='' @ [CHR 0x0A],
          ''Feed GUID: g2'', ''Feed URL: u2'', ''Title: Unknown Publisher'',
          ''Publisher Name: '', ''Artist: '', ''Description: '', ''Status: referenced'',
          ''Priority: unknown'', replicate 60 CHR ''-'',
          ''Feed GUID: g1'', ''Feed URL: u1'', ''Title: Unknown Publisher'',
          ''Publisher Name: '', ''Artist: '', ''Description: '', ''Status: referenced'',
          ''Priority: unknown'', replicate 60 CHR ''-'',
          CHR 0x0A # ''Total unique publishers: 2'',
          CHR 0x0A # ''=== HUMAN-READABLE URL MAPPINGS ==='' @ [CHR 0x0A],
          ''GUID: g1'', ''Display Name: Publisher g1'', ''URL Slug: publisher-g1'',
          ''Feed URL: u1'', ''Status: referenced'', replicate 40 CHR ''-'',
          ''GUID: g2'', ''Display Name: Publisher g2'', ''URL Slug: publisher-g2'',
          ''Feed URL: u2'', ''Status: referenced'', replicate 40 CHR ''-'']
   \<and> output_of [''=== ALL UNIQUE PUBLISHERS ==='' @ [CHR 0x0A],
          ''Feed GUID: g1'', ''Feed URL: u1'', ''Title: Unknown Publisher'',
          ''Publisher Name: '', ''Artist: '', ''Description: '', ''Status: referenced'',
          ''Priority: unknown'', replicate 60 CHR ''-'',
          ''Feed GUID: g2'', ''Feed URL: u2'', ''Title: Unknown Publisher'',
          ''Publisher Name: '', ''Artist: '', ''Description: '', ''Status: referenced'',
          ''Priority: unknown'', replicate 60 CHR ''-'',
          CHR 0x0A # ''Total unique publishers: 2'',
          CHR 0x0A # ''=== HUMAN-READABLE URL MAPPINGS ==='' @ [CHR 0x0A],
          ''GUID: g1'', ''Display Name: Publisher g1'', ''URL Slug: publisher-g1'',
          ''Feed URL: u1'', ''Status: referenced'', replicate 40 CHR ''-'',
          ''GUID: g2'', ''Display Name: Publisher g2'', ''URL Slug: publisher-g2'',
          ''Feed URL: u2'', ''Status: referenced'', replicate 40 CHR ''-'']
     \<noteq> output_of [''=== ALL UNIQUE PUBLISHERS ==='' @ [CHR 0x0A],
          ''Feed GUID: g2'', ''Feed URL: u2'', ''Title: Unknown Publisher'',
          ''Publisher Name: '', ''Artist: '', ''Description: '', ''Status: referenced'',
          ''Priority: unknown'', replicate 60 CHR ''-'',
          ''Feed GUID: g1'', ''Feed URL: u1'', ''Title: Unknown Publisher'',
          ''Publisher Name: '', ''Artist: '', ''Description: '', ''Status: referenced'',
          ''Priority: unknown'', replicate 60 CHR ''-'',
          CHR 0x0A # ''Total unique publishers: 2'',
          CHR 0x0A # ''=== HUMAN-READABLE URL MAPPINGS ==='' @ [CHR 0x0A],
          ''GUID: g1'', ''Display Name: Publisher g1'', ''URL Slug: publisher-g1'',
          ''Feed URL: u1'', ''Status: referenced'', replicate 40 CHR ''-'',
          ''GUID: g2'', ''Display Name: Publisher g2'', ''URL Slug: publisher-g2'',
          ''Feed URL: u2'', ''Status: referenced'', replicate 40 CHR ''-'']"
proof -
  have c: "collect_references two_references =
       Inr [(HStr ''g1'', HStr ''u1''), (HStr ''g2'', HStr ''u2'')]"
    by code_simp
  have a: "final_publisher_summary_main id two_references =
       Inr [''=== ALL UNIQUE PUBLISHERS ==='' @ [CHR 0x0A],
          ''Feed GUID: g1'', ''Feed URL: u1'', ''Title: Unknown Publisher'',
          ''Publisher Name: '', ''Artist: '', ''Description: '', ''Status: referenced'',
          ''Priority: unknown'', replicate 60 CHR ''-'',
          ''Feed GUID: g2'', ''Feed URL: u2'', ''Title: Unknown Publisher'',
          ''Publisher Name: '', ''Artist: '', ''Description: '', ''Status: referenced'',
          ''Priority: unknown'', replicate 60 CHR ''-'',
          CHR 0x0A # ''Total unique publishers: 2'',
          CHR 0x0A # ''=== HUMAN-READABLE URL MAPPINGS ==='' @ [CHR 0x0A],
          ''GUID: g1'', ''Display Name: Publisher g1'', ''URL Slug: publisher-g1'',
          ''Feed URL: u1'', ''Status: referenced'', replicate 40 CHR ''-'',
          ''GUID: g2'', ''Display Name: Publisher g2'', ''URL Slug: publisher-g2'',
          ''Feed URL: u2'', ''Status: referenced'', replicate 40 CHR ''-'']"
    by code_simp
  have b: "final_publisher_summary_main rev two_references =
       Inr [''=== ALL UNIQUE PUBLISHERS ==='' @ [CHR 0x0A],
          ''Feed GUID: g2'', ''Feed URL: u2'', ''Title: Unknown Publisher'',
          ''Publisher Name: '', ''Artist: '', ''Description: '', ''Status: referenced'',
          ''Priority: unknown'', replicate 60 CHR ''-'',
          ''Feed GUID: g1'', ''Feed URL: u1'', ''Title: Unknown Publisher'',
          ''Publisher Name: '', ''Artist: '', ''Description: '', ''Status: referenced'',
          ''Priority: unknown'', replicate 60 CHR ''-'',
          CHR 0x0A # ''Total unique publishers: 2'',
          CHR 0x0A # ''=== HUMAN-READABLE URL MAPPINGS ==='' @ [CHR 0x0A],
          ''GUID: g1'', ''Display Name: Publisher g1'', ''URL Slug: publisher-g1'',
          ''Feed URL: u1'', ''Status: referenced'', replicate 40 CHR ''-'',
          ''GUID: g2'', ''Display Name: Publisher g2'', ''URL Slug: publisher-g2'',
          ''Feed URL: u2'', ''Status: referenced'', replicate 40 CHR ''-'']"
    by code_simp
  have d: "output_of [''=== ALL UNIQUE PUBLISHERS ==='' @ [CHR 0x0A],
          ''Feed GUID: g1'', ''Feed URL: u1'', ''Title: Unknown Publisher'',
          ''Publisher Name: '', ''Artist: '', ''Description: '', ''Status: referenced'',
          ''Priority: unknown'', replicate 60 CHR ''-'',
          ''Feed GUID: g2'', ''Feed URL: u2'', ''Title: Unknown Publisher'',
          ''Publisher Name: '', ''Artist: '', ''Description: '', ''Status: referenced'',
          ''Priority: unknown'', replicate 60 CHR ''-'',
          CHR 0x0A # ''Total unique publishers: 2'',
          CHR 0x0A # ''=== HUMAN-READABLE URL MAPPINGS ==='' @ [CHR 0x0A],
          ''GUID: g1'', ''Display Name: Publisher g1'', ''URL Slug: publisher-g1'',
          ''Feed URL: u1'', ''Status: referenced'', replicate 40 CHR ''-'',
          ''GUID: g2'', ''Display Name: Publisher g2'', ''URL Slug: publisher-g2'',
          ''Feed URL: u2'', ''Status: referenced'', replicate 40 CHR ''-'']
     \<noteq> output_of [''=== ALL UNIQUE PUBLISHERS ==='' @ [CHR 0x0A],
          ''Feed GUID: g2'', ''Feed URL: u2'', ''Title: Unknown Publisher'',
          ''Publisher Name: '', ''Artist: '', ''Description: '', ''Status: referenced'',
          ''Priority: unknown'', replicate 60 CHR ''-'',
          ''Feed GUID: g1'', ''Feed URL: u1'', ''Title: Unknown Publisher'',
          ''Publisher Name: '', ''Artist: '', ''Description: '', ''Status: referenced'',
          ''Priority: unknown'', replicate 60 CHR ''-'',
          CHR 0x0A # ''Total unique publishers: 2'',
          CHR 0x0A # ''=== HUMAN-READABLE URL MAPPINGS ==='' @ [CHR 0x0A],
          ''GUID: g1'', ''Display Name: Publisher g1'', ''URL Slug: publisher-g1'',
          ''Feed URL: u1'', ''Status: referenced'', replicate 40 CHR ''-'',
          ''GUID: g2'', ''Display Name: Publisher g2'', ''URL Slug: publisher-g2'',
          ''Feed URL: u2'', ''Status: referenced'', replicate 40 CHR ''-'']"
    by code_simp
  show ?thesis
    using iteration_order_id iteration_order_rev c a b d by simp
qed




end
